theory Spec2Isabelle
  imports Main
begin

section \<open>JavaScript string primitives\<close>

text \<open>
  Strings are lists of characters; a character stands for one UTF-16 code unit below 256.
  The classes below are the ones the regular expressions and \<^verbatim>\<open>trim\<close> of the source use:
  \<^verbatim>\<open>\w\<close> is \<^verbatim>\<open>[A-Za-z0-9_]\<close>, \<^verbatim>\<open>\s\<close> is the white space of JavaScript (tab, line feed,
  vertical tab, form feed, carriage return, space, no-break space) and \<^verbatim>\<open>.\<close> stops at a
  line terminator (line feed, carriage return).
\<close>

definition isWordChar :: "char \<Rightarrow> bool" where
  "isWordChar c =
     (let n = (of_char c :: nat)
      in (48 \<le> n \<and> n \<le> 57) \<or> (65 \<le> n \<and> n \<le> 90) \<or> (97 \<le> n \<and> n \<le> 122) \<or> n = 95)"

definition isSpace :: "char \<Rightarrow> bool" where
  "isSpace c = ((of_char c :: nat) \<in> {9, 10, 11, 12, 13, 32, 160})"

definition isLineTerminator :: "char \<Rightarrow> bool" where
  "isLineTerminator c = ((of_char c :: nat) \<in> {10, 13})"

text \<open>\<^verbatim>\<open>s.trim()\<close>\<close>

definition trim :: "string \<Rightarrow> string" where
  "trim s = rev (dropWhile isSpace (rev (dropWhile isSpace s)))"

text \<open>\<^verbatim>\<open>s.startsWith(p)\<close>, \<^verbatim>\<open>s.endsWith(p)\<close> and \<^verbatim>\<open>/p/.test(s)\<close> for a literal \<^verbatim>\<open>p\<close>\<close>

definition startsWith :: "string \<Rightarrow> string \<Rightarrow> bool" where
  "startsWith p s = (take (length p) s = p)"

definition endsWith :: "string \<Rightarrow> string \<Rightarrow> bool" where
  "endsWith p s = startsWith (rev p) (rev s)"

fun contains :: "string \<Rightarrow> string \<Rightarrow> bool" where
  "contains p [] = (p = [])"
| "contains p (c # cs) = (startsWith p (c # cs) \<or> contains p cs)"

text \<open>\<^verbatim>\<open>s.split(sep)\<close> for a separator of one character: the empty string gives one empty piece.\<close>

fun split :: "char \<Rightarrow> string \<Rightarrow> string list" where
  "split sep [] = [[]]"
| "split sep (c # cs) =
     (if c = sep then [] # split sep cs
      else (case split sep cs of [] \<Rightarrow> [[c]] | w # ws \<Rightarrow> (c # w) # ws))"

text \<open>\<^verbatim>\<open>xs.join(sep)\<close>\<close>

fun join :: "string \<Rightarrow> string list \<Rightarrow> string" where
  "join sep [] = []"
| "join sep [x] = x"
| "join sep (x # y # ys) = x @ sep @ join sep (y # ys)"

text \<open>\<^verbatim>\<open>s.replace(p, r)\<close> for a string pattern: the first occurrence only.\<close>

fun replaceFirst :: "string \<Rightarrow> string \<Rightarrow> string \<Rightarrow> string" where
  "replaceFirst p r [] = (if p = [] then r else [])"
| "replaceFirst p r (c # cs) =
     (if startsWith p (c # cs) then r @ drop (length p) (c # cs) else c # replaceFirst p r cs)"

text \<open>\<^verbatim>\<open>s.indexOf(ch, from)\<close>: the result is -1 when the character does not occur.\<close>

fun indexOfAux :: "char \<Rightarrow> string \<Rightarrow> nat \<Rightarrow> int" where
  "indexOfAux ch [] i = - 1"
| "indexOfAux ch (c # cs) i = (if c = ch then int i else indexOfAux ch cs (Suc i))"

definition indexOf :: "string \<Rightarrow> char \<Rightarrow> int \<Rightarrow> int" where
  "indexOf s ch from = (let k = nat from in indexOfAux ch (drop k s) k)"

text \<open>\<^verbatim>\<open>s.substr(start, len)\<close>: a negative start counts from the end, a negative length is 0.\<close>

definition substr :: "string \<Rightarrow> int \<Rightarrow> int \<Rightarrow> string" where
  "substr s start len =
     (let b = (if start < 0 then max (int (length s) + start) 0 else start)
      in take (nat len) (drop (nat b) s))"

text \<open>\<^verbatim>\<open>xs.shift()\<close>: the first element (undefined on an empty array) and the rest.\<close>

definition shift :: "'a list \<Rightarrow> 'a option \<times> 'a list" where
  "shift xs = (case xs of [] \<Rightarrow> (None, []) | x # r \<Rightarrow> (Some x, r))"

text \<open>\<^verbatim>\<open>xs.slice(a, b)\<close> for indices that are not negative\<close>

definition slice :: "'a list \<Rightarrow> nat \<Rightarrow> nat \<Rightarrow> 'a list" where
  "slice xs a b = take (b - a) (drop a xs)"

section \<open>The regular expressions of codeParser.ts\<close>

text \<open>
  The result of \<^verbatim>\<open>RegExp.exec\<close>: \<^verbatim>\<open>index\<close>, \<^verbatim>\<open>match[0]\<close> and \<^verbatim>\<open>match[1]\<close>. The declaration
  patterns have a second group, \<^verbatim>\<open>(\(.*\):)*\<close>, which stands after the greedy \<^verbatim>\<open>.*\<close>: that
  \<^verbatim>\<open>.*\<close> runs to the end of the line, the group cannot start there and the star accepts
  zero repetitions, so \<^verbatim>\<open>match[2]\<close> is always undefined.
\<close>

record RegExpExecArray =
  index :: nat
  matched :: string
  group1 :: string

text \<open>The elements \<^verbatim>\<open>matchResult.forEach\<close> visits.\<close>

definition elements :: "RegExpExecArray \<Rightarrow> string option list" where
  "elements m = [Some (matched m), Some (group1 m), None]"

text \<open>\<^verbatim>\<open>\b\<close> between the character before the position (if any) and the rest of the text.\<close>

definition wordBoundary :: "char option \<Rightarrow> string \<Rightarrow> bool" where
  "wordBoundary prev s =
     ((case prev of None \<Rightarrow> False | Some c \<Rightarrow> isWordChar c)
        \<noteq> (case s of [] \<Rightarrow> False | c # _ \<Rightarrow> isWordChar c))"

text \<open>
  The declaration pattern \<^verbatim>\<open>\b(def|thread|global)\s+${keyword}.*(\(.*\):)*\<close>, with the list of
  its alternatives as a parameter (\<^verbatim>\<open>getSignatureFromFile\<close> has \<^verbatim>\<open>(def)\<close> only). The source
  pastes the keyword into the pattern. The model takes it literally, which is what the
  pattern does for a keyword that has no character with a meaning in a regular
  expression and no white space, such as the word under the cursor; for another keyword
  \<^verbatim>\<open>new RegExp\<close> builds a different pattern, or raises. After the alternative, \<^verbatim>\<open>\s+\<close> takes
  all the white space (giving some back cannot help a keyword that does not start with
  white space), the keyword follows, and \<^verbatim>\<open>.*\<close> runs to the end of the line.
\<close>

definition isMetaChar :: "char \<Rightarrow> bool" where
  "isMetaChar c = (c \<in> set ''^$.|?*+()[]{}'' \<or> c = CHR 0x5C)"

definition literalKeyword :: "string \<Rightarrow> bool" where
  "literalKeyword keyword = (\<forall>c \<in> set keyword. \<not> isMetaChar c \<and> \<not> isSpace c)"

definition matchTail :: "string \<Rightarrow> string \<Rightarrow> string option" where
  "matchTail keyword r =
     (let ws = takeWhile isSpace r; r' = dropWhile isSpace r
      in if ws \<noteq> [] \<and> startsWith keyword r'
         then Some (ws @ keyword @ takeWhile (\<lambda>c. \<not> isLineTerminator c) (drop (length keyword) r'))
         else None)"

fun matchAlts :: "string list \<Rightarrow> string \<Rightarrow> string \<Rightarrow> (string \<times> string) option" where
  "matchAlts [] keyword s = None"
| "matchAlts (a # alts) keyword s =
     (if startsWith a s
      then (case matchTail keyword (drop (length a) s) of
              Some t \<Rightarrow> Some (a @ t, a)
            | None \<Rightarrow> matchAlts alts keyword s)
      else matchAlts alts keyword s)"

text \<open>The leftmost position, from the one given, where the pattern matches.\<close>

fun searchDecl :: "string list \<Rightarrow> string \<Rightarrow> char option \<Rightarrow> string \<Rightarrow> nat \<Rightarrow> RegExpExecArray option" where
  "searchDecl alts keyword prev [] i =
     (case (if wordBoundary prev [] then matchAlts alts keyword [] else None) of
        Some (m, g) \<Rightarrow> Some \<lparr>index = i, matched = m, group1 = g\<rparr>
      | None \<Rightarrow> None)"
| "searchDecl alts keyword prev (c # cs) i =
     (case (if wordBoundary prev (c # cs) then matchAlts alts keyword (c # cs) else None) of
        Some (m, g) \<Rightarrow> Some \<lparr>index = i, matched = m, group1 = g\<rparr>
      | None \<Rightarrow> searchDecl alts keyword (Some c) cs (Suc i))"

text \<open>
  \<^verbatim>\<open>exec\<close> of a pattern with the \<^verbatim>\<open>g\<close> flag: the search starts at \<^verbatim>\<open>lastIndex\<close>, which a
  match sets to its end and a failure resets to 0. The pattern object lives as long as
  the scan that made it, so the drivers below thread \<^verbatim>\<open>lastIndex\<close> from line to line.
\<close>

definition charBefore :: "string \<Rightarrow> nat \<Rightarrow> char option" where
  "charBefore text i = (if i = 0 \<or> i > length text then None else Some (text ! (i - 1)))"

definition execDecl :: "string list \<Rightarrow> string \<Rightarrow> string \<Rightarrow> nat \<Rightarrow> RegExpExecArray option \<times> nat" where
  "execDecl alts keyword text lastIndex =
     (if lastIndex > length text then (None, 0)
      else (case searchDecl alts keyword (charBefore text lastIndex) (drop lastIndex text) lastIndex of
              None \<Rightarrow> (None, 0)
            | Some m \<Rightarrow> (Some m, index m + length (matched m))))"

definition mthdAlts :: "string list" where
  "mthdAlts = [''def'', ''thread'', ''global'']"

text \<open>\<^verbatim>\<open>namePat = /\b(?!def|thread|global)\w+/\<close>: the leftmost word that does not start with a keyword.\<close>

fun searchName :: "char option \<Rightarrow> string \<Rightarrow> nat \<Rightarrow> (nat \<times> string) option" where
  "searchName prev [] i = None"
| "searchName prev (c # cs) i =
     (if wordBoundary prev (c # cs)
         \<and> \<not> (startsWith ''def'' (c # cs) \<or> startsWith ''thread'' (c # cs) \<or> startsWith ''global'' (c # cs))
         \<and> isWordChar c
      then Some (i, takeWhile isWordChar (c # cs))
      else searchName (Some c) cs (Suc i))"

text \<open>Without the \<^verbatim>\<open>g\<close> flag (the module's \<^verbatim>\<open>namePat\<close>): every search starts at 0.\<close>

definition execName :: "string \<Rightarrow> (nat \<times> string) option" where
  "execName s = searchName None s 0"

text \<open>With the \<^verbatim>\<open>g\<close> flag (the \<^verbatim>\<open>namePat\<close> local to \<^verbatim>\<open>getLocationFromFile\<close>).\<close>

definition execNameG :: "string \<Rightarrow> nat \<Rightarrow> (nat \<times> string) option \<times> nat" where
  "execNameG s lastIndex =
     (if lastIndex > length s then (None, 0)
      else (case searchName (charBefore s lastIndex) (drop lastIndex s) lastIndex of
              None \<Rightarrow> (None, 0)
            | Some (i, w) \<Rightarrow> (Some (i, w), i + length w)))"

text \<open>\<^verbatim>\<open>paramPat = /\((.*?)\)/\<close>: \<^verbatim>\<open>paramReg[1]\<close> of the leftmost match.\<close>

fun execParam :: "string \<Rightarrow> string option" where
  "execParam [] = None"
| "execParam (c # cs) =
     (if c = CHR ''(''
      then (let seg = takeWhile (\<lambda>x. x \<noteq> CHR '')'' \<and> \<not> isLineTerminator x) cs
            in if startsWith '')'' (drop (length seg) cs) then Some seg else execParam cs)
      else execParam cs)"

section \<open>The doc-comment parser\<close>

text \<open>
  The module scriptmethod.ts is not among the sources: its functions \<^verbatim>\<open>str2Type\<close> and
  \<^verbatim>\<open>type2Str\<close> and the constructor of its class \<^verbatim>\<open>ScriptMethod\<close> are parameters of the
  model, and \<open>'t\<close> is its type of value types. Of a \<^verbatim>\<open>ScriptMethod\<close> the code reads the
  name, the label, the documentation and, of every parameter, the label and the
  documentation.
\<close>

record MethodParameter =
  Label :: string
  Type :: string
  Comment :: string
  Default :: string

record DocReturn =
  docReturnType :: string
  docReturn :: string

record MethodInfo =
  infoName :: string
  infoReturnType :: string
  infoReturn :: string
  infoDeprecated :: string
  infoComment :: string
  infoParameters :: "MethodParameter list"

record ScriptParameter =
  paramLabel :: string
  paramDocumentation :: string

record ScriptMethod =
  methodName :: string
  methodLabel :: string
  methodDocumentation :: string
  methodParameters :: "ScriptParameter list"

record 't scriptmethod =
  str2Type :: "string option \<Rightarrow> 't"
  type2Str :: "'t \<Rightarrow> string"
  newScriptMethod :: "MethodInfo \<Rightarrow> ScriptMethod"

definition parseDocParam :: "'t scriptmethod \<Rightarrow> string \<Rightarrow> MethodParameter" where
  "parseDocParam X line =
     (let splitted = split CHR '' '' (trim (replaceFirst ''@param'' '''' line));
          (first, splitted1) = shift splitted;
          label = (case first of None \<Rightarrow> '''' | Some f \<Rightarrow> f);
          (second, splitted2) = shift splitted1;
          type = str2Type X second;
          comment = join '' '' splitted2
      in \<lparr>Label = label, Type = type2Str X type, Comment = comment, Default = ''''\<rparr>)"

definition parseDocReturn :: "'t scriptmethod \<Rightarrow> string option \<Rightarrow> DocReturn option" where
  "parseDocReturn X line =
     (case line of
        None \<Rightarrow> None
      | Some l \<Rightarrow>
          if l = [] then None
          else (let splitted = split CHR '' '' (trim (replaceFirst ''@returns'' '''' l));
                    (first, splitted1) = shift splitted;
                    type = str2Type X first;
                    comment = join '' '' splitted1
                in Some \<lparr>docReturnType = type2Str X type, docReturn = comment\<rparr>))"

text \<open>
  The loop of \<^verbatim>\<open>findDoc\<close> that looks for the opening \<^verbatim>\<open>###\<close>: \<open>scanBack lines k\<close> runs
  \<^verbatim>\<open>idx\<close> from \<open>k - 1\<close> down to 0 and gives the first index found, or -1.
\<close>

fun scanBack :: "string list \<Rightarrow> nat \<Rightarrow> int" where
  "scanBack lines 0 = - 1"
| "scanBack lines (Suc idx) = (if lines ! idx = ''###'' then int idx else scanBack lines idx)"

text \<open>
  \<^verbatim>\<open>findDoc\<close>, up to the object it hands to \<^verbatim>\<open>new ScriptMethod\<close>; \<open>None\<close> is the
  \<^verbatim>\<open>undefined\<close> it returns when it finds no block.
\<close>

definition findDocInfo :: "'t scriptmethod \<Rightarrow> string \<Rightarrow> string list option \<Rightarrow> MethodInfo option" where
  "findDocInfo X name lines =
     (case lines of
        None \<Rightarrow> None
      | Some ls \<Rightarrow>
          if ls \<noteq> [] \<and> last ls = ''###''
          then (let startIndex = scanBack ls (length ls - 1);
                    endIndex = int (length ls) - 1
                in if startIndex > - 1 \<and> startIndex < endIndex
                   then (let doc = map (\<lambda>l. trim (filter (\<lambda>c. c \<noteq> CHR ''#'') l))
                                     (slice ls (nat (startIndex + 1)) (nat endIndex));
                             params = map (parseDocParam X) (filter (startsWith ''@param'') doc);
                             returns = parseDocReturn X (find (startsWith ''@returns'') doc);
                             summary = join [CHR '' '', CHR '' '', CHR 0x0A]
                                         (filter (\<lambda>l. \<not> startsWith ''@'' l) doc)
                         in Some \<lparr>infoName = name,
                                  infoReturnType = (case returns of Some r \<Rightarrow> docReturnType r | None \<Rightarrow> ''None''),
                                  infoReturn = (case returns of Some r \<Rightarrow> docReturn r | None \<Rightarrow> ''''),
                                  infoDeprecated = '''',
                                  infoComment = summary,
                                  infoParameters = params\<rparr>)
                   else None)
          else None)"

definition findDoc :: "'t scriptmethod \<Rightarrow> string \<Rightarrow> string list option \<Rightarrow> ScriptMethod option" where
  "findDoc X name lines = map_option (newScriptMethod X) (findDocInfo X name lines)"

section \<open>The symbol descriptor builders\<close>

datatype CompletionItemKind = KindVariable | KindFunction

text \<open>\<^verbatim>\<open>insertText\<close> is a string or a \<^verbatim>\<open>SnippetString\<close>.\<close>

datatype InsertText = PlainText string | SnippetString string

record CompletionItem =
  label :: string
  kind :: CompletionItemKind
  insertText :: InsertText
  detail :: string
  documentation :: "string option"
  commitCharacters :: "string list"

text \<open>The decimal digits of a number, for the placeholders \<^verbatim>\<open>${1:a}\<close> of a snippet.\<close>

fun showNat :: "nat \<Rightarrow> string" where
  "showNat n = (if n < 10 then [char_of (48 + n)] else showNat (n div 10) @ [char_of (48 + n mod 10)])"

text \<open>
  Modelled from the spec: \<^verbatim>\<open>isBlank\<close> of utilities/checkString.ts, which is not among the
  sources. The spec has the empty-call template "if no parameters are present": the text
  between the parentheses is blank when nothing but white space stands there.
\<close>

definition isBlank :: "string \<Rightarrow> bool" where
  "isBlank s = (trim s = [])"

text \<open>
  The body of the callback of \<^verbatim>\<open>parseCmpItem\<close> once the name is found and is new: the
  completion item for the matched text \<open>v\<close> and the name \<open>name\<close>.
\<close>

definition newCmpItem :: "'t scriptmethod \<Rightarrow> string \<Rightarrow> string \<Rightarrow> string list option \<Rightarrow> CompletionItem" where
  "newCmpItem X v name oldLines =
     (let doc = findDoc X name oldLines;
          documentation0 = map_option methodDocumentation doc;
          commit0 = [[CHR 0x09], '' '', [CHR 0x0A]]
      in if contains ''global'' v
         then \<lparr>label = name, kind = KindVariable, insertText = PlainText name,
               detail = ''global '' @ name, documentation = documentation0,
               commitCharacters = commit0\<rparr>
         else if contains ''thread'' v
         then \<lparr>label = name, kind = KindVariable, insertText = PlainText (name @ ''()''),
               detail = ''thread '' @ name, documentation = documentation0,
               commitCharacters = commit0\<rparr>
         else (case doc of
                 Some d \<Rightarrow>
                   \<lparr>label = name, kind = KindFunction, insertText = SnippetString (methodName d),
                    detail = methodLabel d, documentation = documentation0,
                    commitCharacters = commit0 @ [''(''] \<rparr>
               | None \<Rightarrow>
                   (case execParam v of
                      Some p1 \<Rightarrow>
                        if \<not> isBlank p1
                        then (let param = map trim (split CHR '','' p1);
                                  sign = map (\<lambda>(signIdx, p). ''${'' @ showNat signIdx @ '':'' @ p @ ''}'')
                                           (zip [1 ..< Suc (length param)] param)
                              in \<lparr>label = name, kind = KindFunction,
                                  insertText = SnippetString (name @ ''('' @ join '', '' sign @ '')$0''),
                                  detail = name @ ''('' @ join '', '' param @ '')'',
                                  documentation = documentation0, commitCharacters = commit0\<rparr>)
                        else \<lparr>label = name, kind = KindFunction,
                              insertText = SnippetString (name @ ''()$0''),
                              detail = name, documentation = documentation0,
                              commitCharacters = commit0\<rparr>
                    | None \<Rightarrow>
                        \<lparr>label = name, kind = KindFunction,
                         insertText = SnippetString (name @ ''()$0''),
                         detail = name, documentation = documentation0,
                         commitCharacters = commit0\<rparr>)))"

text \<open>The callback of \<^verbatim>\<open>matchResult.forEach\<close>, on one element of the match.\<close>

definition parseCmpValue :: "'t scriptmethod \<Rightarrow> string list option \<Rightarrow> CompletionItem list \<Rightarrow> string option \<Rightarrow> CompletionItem list" where
  "parseCmpValue X oldLines cmpItems val =
     (case val of
        None \<Rightarrow> cmpItems
      | Some v \<Rightarrow>
          if v = [] then cmpItems
          else (case execName v of
                  None \<Rightarrow> cmpItems
                | Some (i, name) \<Rightarrow>
                    if find (\<lambda>cmp. label cmp = name) cmpItems \<noteq> None then cmpItems
                    else cmpItems @ [newCmpItem X v name oldLines]))"

text \<open>\<^verbatim>\<open>parseCmpItem\<close> pushes onto \<^verbatim>\<open>cmpItems\<close>; the model returns the new collection.\<close>

definition parseCmpItem :: "'t scriptmethod \<Rightarrow> RegExpExecArray option \<Rightarrow> CompletionItem list \<Rightarrow> string list option \<Rightarrow> CompletionItem list" where
  "parseCmpItem X matchResult cmpItems oldLines =
     (case matchResult of
        None \<Rightarrow> cmpItems
      | Some m \<Rightarrow> foldl (parseCmpValue X oldLines) cmpItems (elements m))"

datatype HoverItem = CodeBlock string string | MarkdownString string | Documentation string

definition parseHover :: "'t scriptmethod \<Rightarrow> RegExpExecArray option \<Rightarrow> string list option \<Rightarrow> HoverItem list option" where
  "parseHover X matchResult oldLines =
     (case matchResult of
        None \<Rightarrow> None
      | Some m \<Rightarrow>
          (let step = matched m
           in case execName step of
                None \<Rightarrow> None
              | Some (i, name) \<Rightarrow>
                  (let doc = findDoc X name oldLines;
                       items =
                         (if contains ''global'' step then [CodeBlock ''urscript'' (''global '' @ name)]
                          else if contains ''thread'' step then [CodeBlock ''urscript'' (''thread  '' @ name)]
                          else (case doc of
                                  Some d \<Rightarrow> [CodeBlock ''urscript'' (methodLabel d)]
                                | None \<Rightarrow>
                                    [MarkdownString ''*user function*'',
                                     (case execParam step of
                                        Some p1 \<Rightarrow>
                                          MarkdownString (name @ ''('' @ join '', '' (map trim (split CHR '','' p1)) @ '')'')
                                      | None \<Rightarrow> MarkdownString (name @ ''()''))]))
                   in Some (items @ (case doc of Some d \<Rightarrow> [Documentation (methodDocumentation d)] | None \<Rightarrow> [])))))"

record ParameterInformation =
  parameterLabel :: string
  parameterDocumentation :: string

record SignatureInformation =
  signatureLabel :: string
  parameters :: "ParameterInformation list"

record SignatureHelp =
  signatures :: "SignatureInformation list"
  activeSignature :: nat
  activeParameter :: nat

text \<open>The signature help both \<^verbatim>\<open>parseSignature\<close> and the constructor of \<^verbatim>\<open>ScriptSignature\<close> build.\<close>

definition signatureOf :: "ScriptMethod \<Rightarrow> SignatureHelp" where
  "signatureOf doc =
     \<lparr>signatures =
        [\<lparr>signatureLabel = methodLabel doc,
          parameters = map (\<lambda>para. \<lparr>parameterLabel = paramLabel para,
                                     parameterDocumentation = paramDocumentation para\<rparr>)
                           (methodParameters doc)\<rparr>],
      activeSignature = 0,
      activeParameter = 0\<rparr>"

definition parseSignature :: "'t scriptmethod \<Rightarrow> RegExpExecArray option \<Rightarrow> string list option \<Rightarrow> SignatureHelp option" where
  "parseSignature X matchResult oldLines =
     (case matchResult of
        None \<Rightarrow> None
      | Some m \<Rightarrow>
          (let step = matched m
           in case execName step of
                None \<Rightarrow> None
              | Some (i, name) \<Rightarrow>
                  (case findDoc X name oldLines of
                     Some doc \<Rightarrow> Some (signatureOf doc)
                   | None \<Rightarrow> None)))"

section \<open>The scan drivers\<close>

text \<open>A match of the declaration pattern is never empty and lies inside the text.\<close>

lemma startsWith_length: "startsWith p s \<Longrightarrow> length p \<le> length s"
proof -
  assume "startsWith p s"
  then have "take (length p) s = p" by (simp only: startsWith_def)
  then have "length (take (length p) s) = length p" by (rule arg_cong)
  then have "min (length p) (length s) = length p" by (simp only: length_take)
  then show ?thesis by linarith
qed

lemma matchTail_SomeD:
  "matchTail keyword r = Some t \<Longrightarrow>
     takeWhile isSpace r \<noteq> [] \<and> startsWith keyword (dropWhile isSpace r) \<and>
     t = takeWhile isSpace r @ keyword @ takeWhile (\<lambda>c. \<not> isLineTerminator c) (drop (length keyword) (dropWhile isSpace r))"
  unfolding matchTail_def Let_def by (simp split: if_splits)

lemma matchTail_nonempty: "matchTail keyword r = Some t \<Longrightarrow> t \<noteq> [] \<and> length t \<le> length r"
proof -
  assume a: "matchTail keyword r = Some t"
  let ?ws = "takeWhile isSpace r" and ?r' = "dropWhile isSpace r"
  let ?rest = "takeWhile (\<lambda>c. \<not> isLineTerminator c) (drop (length keyword) ?r')"
  from matchTail_SomeD [OF a] have ws: "?ws \<noteq> []" and sw: "startsWith keyword ?r'"
    and t: "t = ?ws @ keyword @ ?rest"
    by blast+
  from sw have k: "length keyword \<le> length ?r'" by (rule startsWith_length)
  have "length ?rest \<le> length (drop (length keyword) ?r')" by (rule length_takeWhile_le)
  then have r: "length ?rest \<le> length ?r' - length keyword" by simp
  have s: "length ?ws + length ?r' = length r"
    by (metis length_append takeWhile_dropWhile_id)
  from t have "length t = length ?ws + length keyword + length ?rest" by simp
  with k r s have "length t \<le> length r" by linarith
  moreover from ws t have "t \<noteq> []" by simp
  ultimately show ?thesis by simp
qed

lemma matchAlts_bounds:
  "matchAlts alts keyword s = Some (m, g) \<Longrightarrow> m \<noteq> [] \<and> length m \<le> length s \<and> g \<in> set alts"
proof (induction alts)
  case Nil
  then show ?case by simp
next
  case (Cons a alts)
  show ?case
  proof (cases "startsWith a s \<and> matchTail keyword (drop (length a) s) \<noteq> None")
    case True
    then obtain t where t: "matchTail keyword (drop (length a) s) = Some t" by auto
    with True Cons.prems have m: "m = a @ t" and g: "g = a" by auto
    from True have "length a \<le> length s"
      by (simp add: startsWith_length)
    with matchTail_nonempty [OF t] m g show ?thesis by auto
  next
    case False
    with Cons.prems have "matchAlts alts keyword s = Some (m, g)"
      by (auto split: if_splits option.splits)
    with Cons.IH show ?thesis by auto
  qed
qed

lemma searchDecl_bounds:
  "searchDecl alts keyword prev s i = Some m \<Longrightarrow>
     i \<le> index m \<and> matched m \<noteq> [] \<and> index m + length (matched m) \<le> i + length s \<and> group1 m \<in> set alts"
proof (induction s arbitrary: prev i)
  case Nil
  then show ?case
    by (auto split: option.splits if_splits dest: matchAlts_bounds)
next
  case (Cons c cs)
  show ?case
  proof (cases "if wordBoundary prev (c # cs) then matchAlts alts keyword (c # cs) else None")
    case None
    with Cons.prems have "searchDecl alts keyword (Some c) cs (Suc i) = Some m" by simp
    from Cons.IH [OF this] show ?thesis by simp
  next
    case (Some mg)
    obtain m' g where mg: "mg = (m', g)" by (cases mg)
    with Some Cons.prems have m: "m = \<lparr>index = i, matched = m', group1 = g\<rparr>" by simp
    from Some mg have "matchAlts alts keyword (c # cs) = Some (m', g)" by (simp split: if_splits)
    from matchAlts_bounds [OF this] m show ?thesis by simp
  qed
qed

lemma execDecl_bounds:
  "execDecl alts keyword text lastIndex = (Some m, lastIndex') \<Longrightarrow>
     lastIndex < lastIndex' \<and> lastIndex' \<le> length text \<and> lastIndex' = index m + length (matched m)
       \<and> group1 m \<in> set alts \<and> matched m \<noteq> []"
proof -
  assume a: "execDecl alts keyword text lastIndex = (Some m, lastIndex')"
  then have le: "lastIndex \<le> length text"
    and s: "searchDecl alts keyword (charBefore text lastIndex) (drop lastIndex text) lastIndex = Some m"
    and l: "lastIndex' = index m + length (matched m)"
    by (auto simp: execDecl_def split: if_splits option.splits)
  from searchDecl_bounds [OF s] le have "lastIndex \<le> index m" and "matched m \<noteq> []"
    and "index m + length (matched m) \<le> length text" and "group1 m \<in> set alts"
    by auto
  with l show ?thesis by (cases "matched m") auto
qed

text \<open>
  \<^verbatim>\<open>getCompletionItemsFromText\<close>: the \<^verbatim>\<open>while\<close> loop over the matches of the whole text;
  \<^verbatim>\<open>parseCmpItem\<close> gets no line window there.
\<close>

function textLoop :: "'t scriptmethod \<Rightarrow> string \<Rightarrow> string \<Rightarrow> nat \<Rightarrow> CompletionItem list \<Rightarrow> CompletionItem list" where
  "textLoop X keyword text lastIndex cmpItems =
     (case execDecl mthdAlts keyword text lastIndex of
        (None, lastIndex') \<Rightarrow> cmpItems
      | (Some m, lastIndex') \<Rightarrow> textLoop X keyword text lastIndex' (parseCmpItem X (Some m) cmpItems None))"
  by pat_completeness auto
termination
  by (relation "measure (\<lambda>(X, keyword, text, lastIndex, cmpItems). Suc (length text) - lastIndex)")
     (auto dest!: execDecl_bounds [OF sym])

declare textLoop.simps [simp del]

definition getCompletionItemsFromText :: "'t scriptmethod \<Rightarrow> string \<Rightarrow> string \<Rightarrow> CompletionItem list \<Rightarrow> CompletionItem list" where
  "getCompletionItemsFromText X text keyword cmpItems = textLoop X keyword text 0 cmpItems"

text \<open>
  The line window of the file drivers: the three of them end an iteration with
  \<^verbatim>\<open>if (oldLines.length > 20) { oldLines.shift(); } oldLines.push(cur);\<close>
\<close>

definition pushOldLines :: "string list \<Rightarrow> string \<Rightarrow> string list" where
  "pushOldLines oldLines cur = (if length oldLines > 20 then tl oldLines else oldLines) @ [cur]"

text \<open>
  What the line reader yields for a line: the text and its number. A line that is falsy
  for \<^verbatim>\<open>if (pkg.line)\<close> is the empty text here.
\<close>

record LineInfo =
  line :: string
  lineNo :: nat

text \<open>
  The file system: \<^verbatim>\<open>fs.readdirSync\<close> lists a folder and raises when it cannot (\<open>None\<close>);
  \<open>fileLines\<close> has the lines of every file that can be read.
\<close>

record fileSystem =
  readdirSync :: "string \<Rightarrow> string list option"
  fileLines :: "string \<Rightarrow> LineInfo list option"

datatype error = FileSystemError | EditorError

text \<open>
  Modelled from the spec: the line reader \<^verbatim>\<open>ReadLinesSync\<close> of utilities/readLines.ts,
  which is not among the sources. It yields the lines of a file in order, and the spec has
  "a missing or unreadable file simply yields an empty result for that file".
\<close>

definition ReadLinesSync :: "fileSystem \<Rightarrow> string \<Rightarrow> LineInfo list" where
  "ReadLinesSync fs fileName = (case fileLines fs fileName of None \<Rightarrow> [] | Some pkgs \<Rightarrow> pkgs)"

text \<open>
  \<^verbatim>\<open>getCompletionItemsFromFile\<close>: the state of its loop is the \<^verbatim>\<open>lastIndex\<close> of the pattern,
  the line window and the collection; the loop returns all three.
\<close>

fun cmpFileLoop :: "'t scriptmethod \<Rightarrow> string \<Rightarrow> LineInfo list \<Rightarrow> nat \<Rightarrow> string list \<Rightarrow> CompletionItem list
    \<Rightarrow> CompletionItem list \<times> string list \<times> nat" where
  "cmpFileLoop X keyword [] lastIndex oldLines cmpItems = (cmpItems, oldLines, lastIndex)"
| "cmpFileLoop X keyword (pkg # rest) lastIndex oldLines cmpItems =
     (if line pkg \<noteq> []
      then (let cur = trim (line pkg);
                (match, lastIndex') = execDecl mthdAlts keyword cur lastIndex;
                cmpItems' = parseCmpItem X match cmpItems (Some oldLines)
            in cmpFileLoop X keyword rest lastIndex' (pushOldLines oldLines cur) cmpItems')
      else cmpFileLoop X keyword rest lastIndex oldLines cmpItems)"

definition getCompletionItemsFromFile :: "'t scriptmethod \<Rightarrow> fileSystem \<Rightarrow> string \<Rightarrow> string \<Rightarrow> CompletionItem list \<Rightarrow> CompletionItem list" where
  "getCompletionItemsFromFile X fs fileName keyword cmpItems =
     fst (cmpFileLoop X keyword (ReadLinesSync fs fileName) 0 [] cmpItems)"

record WorkspaceFolder =
  fsPath :: string

definition getCompletionItemsFromWorkspace :: "'t scriptmethod \<Rightarrow> fileSystem \<Rightarrow> WorkspaceFolder \<Rightarrow> string \<Rightarrow> CompletionItem list
    \<Rightarrow> error + CompletionItem list" where
  "getCompletionItemsFromWorkspace X fs workspace keyword cmpItems =
     (case readdirSync fs (fsPath workspace) of
        None \<Rightarrow> Inl FileSystemError
      | Some names \<Rightarrow>
          (let files = map (\<lambda>file. fsPath workspace @ [CHR 0x5C] @ file)
                           (filter (endsWith ''.script'') names)
           in Inr (foldl (\<lambda>items file. getCompletionItemsFromFile X fs file keyword items) cmpItems files)))"

definition getHoverFromText :: "'t scriptmethod \<Rightarrow> string \<Rightarrow> string \<Rightarrow> HoverItem list option" where
  "getHoverFromText X text keyword = parseHover X (fst (execDecl mthdAlts keyword text 0)) None"

text \<open>\<^verbatim>\<open>getHoverFromFile\<close>: the loop stops at the first line that gives a hover.\<close>

fun hoverFileLoop :: "'t scriptmethod \<Rightarrow> string \<Rightarrow> LineInfo list \<Rightarrow> nat \<Rightarrow> string list \<Rightarrow> HoverItem list option" where
  "hoverFileLoop X keyword [] lastIndex oldLines = None"
| "hoverFileLoop X keyword (pkg # rest) lastIndex oldLines =
     (if line pkg \<noteq> []
      then (let cur = trim (line pkg);
                (match, lastIndex') = execDecl mthdAlts keyword cur lastIndex
            in case parseHover X match (Some oldLines) of
                 Some hov \<Rightarrow> Some hov
               | None \<Rightarrow> hoverFileLoop X keyword rest lastIndex' (pushOldLines oldLines cur))
      else hoverFileLoop X keyword rest lastIndex oldLines)"

definition getHoverFromFile :: "'t scriptmethod \<Rightarrow> fileSystem \<Rightarrow> string \<Rightarrow> string \<Rightarrow> HoverItem list option" where
  "getHoverFromFile X fs fileName keyword = hoverFileLoop X keyword (ReadLinesSync fs fileName) 0 []"

text \<open>
  \<^verbatim>\<open>explored.split(/.*[\/|\\]/)\<close>: at a position where the separator pattern matches
  (a slash, a bar or a backslash follows on the same line) the piece ends, and the next
  one starts after the last such character of the line.
\<close>

definition isPathSep :: "char \<Rightarrow> bool" where
  "isPathSep c = (c = CHR ''/'' \<or> c = CHR ''|'' \<or> c = CHR 0x5C)"

definition sepMatch :: "string \<Rightarrow> nat option" where
  "sepMatch s =
     (let ln = takeWhile (\<lambda>c. \<not> isLineTerminator c) s
      in if \<exists>c \<in> set ln. isPathSep c
         then Some (length ln - length (takeWhile (\<lambda>c. \<not> isPathSep c) (rev ln)))
         else None)"

lemma takeWhile_shorter: "\<exists>x \<in> set xs. \<not> P x \<Longrightarrow> length (takeWhile P xs) < length xs"
  by (induction xs) auto

lemma sepMatch_pos: "sepMatch s = Some e \<Longrightarrow> 0 < e"
proof -
  assume a: "sepMatch s = Some e"
  let ?ln = "takeWhile (\<lambda>c. \<not> isLineTerminator c) s"
  from a have ex: "\<exists>c \<in> set (rev ?ln). \<not> \<not> isPathSep c"
    and e: "e = length ?ln - length (takeWhile (\<lambda>c. \<not> isPathSep c) (rev ?ln))"
    by (auto simp: sepMatch_def Let_def split: if_splits)
  from ex have "length (takeWhile (\<lambda>c. \<not> isPathSep c) (rev ?ln)) < length (rev ?ln)"
    by (rule takeWhile_shorter)
  with e show ?thesis by simp
qed

function splitPath :: "string \<Rightarrow> string \<Rightarrow> string list" where
  "splitPath piece [] = [piece]"
| "splitPath piece (c # cs) =
     (case sepMatch (c # cs) of
        Some e \<Rightarrow> piece # splitPath [] (drop e (c # cs))
      | None \<Rightarrow> splitPath (piece @ [c]) cs)"
  by pat_completeness auto
termination
  by (relation "measure (\<lambda>(piece, s). length s)") (auto dest!: sepMatch_pos)

text \<open>\<^verbatim>\<open>explored.split(/.*[\/|\\]/)[1]\<close>, undefined when the split has one piece.\<close>

definition exploredName :: "string \<Rightarrow> string option" where
  "exploredName explored =
     (case splitPath [] explored of
        p0 # p1 # ps \<Rightarrow> Some p1
      | _ \<Rightarrow> None)"

text \<open>The files of a folder that the look-up scans read: the scripts, the explored one left out.\<close>

definition lookupFiles :: "fileSystem \<Rightarrow> WorkspaceFolder \<Rightarrow> string \<Rightarrow> error + string list" where
  "lookupFiles fs workspace explored =
     (case readdirSync fs (fsPath workspace) of
        None \<Rightarrow> Inl FileSystemError
      | Some names \<Rightarrow>
          Inr (map (\<lambda>file. fsPath workspace @ [CHR 0x5C] @ file)
                   (filter (\<lambda>file. endsWith ''.script'' file \<and> Some file \<noteq> exploredName explored) names)))"

text \<open>The loop of the look-up scans over the files: the first result that is not undefined.\<close>

fun firstResult :: "('a \<Rightarrow> 'b option) \<Rightarrow> 'a list \<Rightarrow> 'b option" where
  "firstResult f [] = None"
| "firstResult f (x # xs) = (case f x of Some r \<Rightarrow> Some r | None \<Rightarrow> firstResult f xs)"

definition getHoverFromWorkspace :: "'t scriptmethod \<Rightarrow> fileSystem \<Rightarrow> WorkspaceFolder \<Rightarrow> string \<Rightarrow> string
    \<Rightarrow> error + HoverItem list option" where
  "getHoverFromWorkspace X fs workspace keyword explored =
     (case lookupFiles fs workspace explored of
        Inl e \<Rightarrow> Inl e
      | Inr files \<Rightarrow> Inr (firstResult (\<lambda>file. getHoverFromFile X fs file keyword) files))"

text \<open>
  \<^verbatim>\<open>getLocationFromFile\<close>: both patterns are made once for the file and have the \<^verbatim>\<open>g\<close>
  flag, so the loop threads the \<^verbatim>\<open>lastIndex\<close> of each; the lines are not trimmed. The
  column of a location is \<^verbatim>\<open>nameReg.index\<close>, the index of the name in \<^verbatim>\<open>match[0]\<close>.
\<close>

record Location =
  uri :: string
  positionLine :: nat
  positionCharacter :: nat

fun locFileLoop :: "string \<Rightarrow> string \<Rightarrow> LineInfo list \<Rightarrow> nat \<Rightarrow> nat \<Rightarrow> Location list \<Rightarrow> Location list" where
  "locFileLoop fileName keyword [] lastIndex nameLastIndex locColl = locColl"
| "locFileLoop fileName keyword (ret # rest) lastIndex nameLastIndex locColl =
     (if line ret \<noteq> []
      then (let (match, lastIndex') = execDecl mthdAlts keyword (line ret) lastIndex
            in case match of
                 None \<Rightarrow> locFileLoop fileName keyword rest lastIndex' nameLastIndex locColl
               | Some m \<Rightarrow>
                   (let (nameReg, nameLastIndex') = execNameG (matched m) nameLastIndex
                    in case nameReg of
                         None \<Rightarrow> locFileLoop fileName keyword rest lastIndex' nameLastIndex' locColl
                       | Some (i, name) \<Rightarrow>
                           locFileLoop fileName keyword rest lastIndex' nameLastIndex'
                             (locColl @ [\<lparr>uri = fileName, positionLine = lineNo ret, positionCharacter = i\<rparr>])))
      else locFileLoop fileName keyword rest lastIndex nameLastIndex locColl)"

definition getLocationFromFile :: "fileSystem \<Rightarrow> string \<Rightarrow> string \<Rightarrow> Location list" where
  "getLocationFromFile fs fileName keyword = locFileLoop fileName keyword (ReadLinesSync fs fileName) 0 0 []"

definition getLocationFromWorkspace :: "fileSystem \<Rightarrow> WorkspaceFolder \<Rightarrow> string \<Rightarrow> string \<Rightarrow> error + Location list" where
  "getLocationFromWorkspace fs workspace keyword explored =
     (case lookupFiles fs workspace explored of
        Inl e \<Rightarrow> Inl e
      | Inr files \<Rightarrow> Inr (foldl (\<lambda>locColl file. locColl @ getLocationFromFile fs file keyword) [] files))"

text \<open>\<^verbatim>\<open>getSignatureFromFile\<close>: its pattern is \<^verbatim>\<open>\b(def)\s+${keyword}.*(\(.*\):)*\<close>.\<close>

definition sigAlts :: "string list" where
  "sigAlts = [''def'']"

fun sigFileLoop :: "'t scriptmethod \<Rightarrow> string \<Rightarrow> LineInfo list \<Rightarrow> nat \<Rightarrow> string list \<Rightarrow> SignatureHelp option" where
  "sigFileLoop X keyword [] lastIndex oldLines = None"
| "sigFileLoop X keyword (pkg # rest) lastIndex oldLines =
     (if line pkg \<noteq> []
      then (let cur = trim (line pkg);
                (match, lastIndex') = execDecl sigAlts keyword cur lastIndex
            in case parseSignature X match (Some oldLines) of
                 Some sigHelp \<Rightarrow> Some sigHelp
               | None \<Rightarrow> sigFileLoop X keyword rest lastIndex' (pushOldLines oldLines cur))
      else sigFileLoop X keyword rest lastIndex oldLines)"

definition getSignatureFromFile :: "'t scriptmethod \<Rightarrow> fileSystem \<Rightarrow> string \<Rightarrow> string \<Rightarrow> SignatureHelp option" where
  "getSignatureFromFile X fs fileName keyword = sigFileLoop X keyword (ReadLinesSync fs fileName) 0 []"

definition getSignatureFromWorkspace :: "'t scriptmethod \<Rightarrow> fileSystem \<Rightarrow> WorkspaceFolder \<Rightarrow> string \<Rightarrow> string
    \<Rightarrow> error + SignatureHelp option" where
  "getSignatureFromWorkspace X fs workspace keyword explored =
     (case lookupFiles fs workspace explored of
        Inl e \<Rightarrow> Inl e
      | Inr files \<Rightarrow> Inr (firstResult (\<lambda>file. getSignatureFromFile X fs file keyword) files))"

section \<open>The signature help provider\<close>

text \<open>
  The editor's objects. Of the document the provider reads the lines, the file name and
  the word at a position: \<open>wordAt doc l c\<close> is
  \<^verbatim>\<open>document.getText(document.getWordRangeAtPosition(new Position(l, c)))\<close>, and \<open>None\<close>
  when the editor raises there. \<^verbatim>\<open>getSignatureFromDocument\<close> is imported from codeParser.ts
  but is not in the sources: it is a parameter, and may raise.
\<close>

record TextDocument =
  documentLines :: "string list"
  fileName :: string
  wordAt :: "nat \<Rightarrow> int \<Rightarrow> string option"

record Position =
  lineNumber :: nat
  character :: nat

record SignatureHelpContext =
  isRetrigger :: bool
  activeSignatureHelp :: "SignatureHelp option"

record ScriptSignature =
  Name :: string
  Item :: SignatureHelp

text \<open>\<^verbatim>\<open>new ScriptSignature(mthd)\<close> and the constructor of the provider\<close>

definition newScriptSignature :: "ScriptMethod \<Rightarrow> ScriptSignature" where
  "newScriptSignature mthd = \<lparr>Name = methodName mthd, Item = signatureOf mthd\<rparr>"

definition newProvider :: "ScriptMethod list \<Rightarrow> ScriptSignature list" where
  "newProvider funcs = map newScriptSignature funcs"

text \<open>The loop over the workspace folders: it stops at the first signature, or when a scan raises.\<close>

fun folderLoop :: "(WorkspaceFolder \<Rightarrow> error + SignatureHelp option) \<Rightarrow> WorkspaceFolder list \<Rightarrow> error + SignatureHelp option" where
  "folderLoop scan [] = Inr None"
| "folderLoop scan (folder # rest) =
     (case scan folder of
        Inl e \<Rightarrow> Inl e
      | Inr (Some sigHelp) \<Rightarrow> Inr (Some sigHelp)
      | Inr None \<Rightarrow> folderLoop scan rest)"

text \<open>
  \<^verbatim>\<open>matched.Item.activeParameter = 0; matched.Item.activeSignature = 0\<close> writes into the
  catalog entry that \<^verbatim>\<open>find\<close> returned, the first one with the name.
\<close>

fun resetFirst :: "string \<Rightarrow> ScriptSignature list \<Rightarrow> ScriptSignature list" where
  "resetFirst word [] = []"
| "resetFirst word (s # sigs) =
     (if Name s = word
      then s\<lparr>Item := (Item s)\<lparr>activeParameter := 0, activeSignature := 0\<rparr>\<rparr> # sigs
      else s # resetFirst word sigs)"

text \<open>
  \<^verbatim>\<open>provideSignatureHelp\<close>: the result (\<open>None\<close> for \<^verbatim>\<open>undefined\<close>) and the catalog after the
  call. Whatever is raised inside is caught and gives \<^verbatim>\<open>undefined\<close>.
\<close>

definition provideSignatureHelp ::
  "'t scriptmethod \<Rightarrow> fileSystem \<Rightarrow> (TextDocument \<Rightarrow> string \<Rightarrow> error + SignatureHelp option)
    \<Rightarrow> WorkspaceFolder list option \<Rightarrow> ScriptSignature list
    \<Rightarrow> TextDocument \<Rightarrow> Position \<Rightarrow> SignatureHelpContext
    \<Rightarrow> SignatureHelp option \<times> ScriptSignature list" where
  "provideSignatureHelp X fs getSignatureFromDocument workspaceFolders scriptSignatures document position context =
     (if lineNumber position \<ge> length (documentLines document) then (None, scriptSignatures)
      else
        (let text = documentLines document ! lineNumber position;
             parLeft = indexOf text CHR ''('' 0;
             parRight = indexOf text CHR '')'' parLeft
         in if int (character position) < parLeft \<or> parRight < int (character position)
            then (None, scriptSignatures)
            else if isRetrigger context \<and> activeSignatureHelp context \<noteq> None
            then (let paraStr = substr text (parLeft + 1) (int (character position) - parLeft - 1);
                      paraAry = split CHR '','' paraStr
                  in (map_option (\<lambda>help. help\<lparr>activeParameter := length paraAry - 1\<rparr>)
                                 (activeSignatureHelp context),
                      scriptSignatures))
            else (case wordAt document (lineNumber position) (parLeft - 1) of
                    None \<Rightarrow> (None, scriptSignatures)
                  | Some word \<Rightarrow>
                      (case find (\<lambda>sig. Name sig = word) scriptSignatures of
                         Some found \<Rightarrow>
                           (Some ((Item found)\<lparr>activeParameter := 0, activeSignature := 0\<rparr>),
                            resetFirst word scriptSignatures)
                       | None \<Rightarrow>
                           (case getSignatureFromDocument document word of
                              Inl e \<Rightarrow> (None, scriptSignatures)
                            | Inr sigHelp \<Rightarrow>
                                if sigHelp = None \<and> workspaceFolders \<noteq> None
                                then (case folderLoop (\<lambda>folder. getSignatureFromWorkspace X fs folder word (fileName document))
                                             (case workspaceFolders of Some folders \<Rightarrow> folders | None \<Rightarrow> []) of
                                        Inl e \<Rightarrow> (None, scriptSignatures)
                                      | Inr r \<Rightarrow> (r, scriptSignatures))
                                else (sigHelp, scriptSignatures))))))"

section \<open>Notions of the statements\<close>

text \<open>The last \<open>n\<close> elements of a list, and the lines a file driver feeds to its window.\<close>

definition lastN :: "nat \<Rightarrow> 'a list \<Rightarrow> 'a list" where
  "lastN n xs = drop (length xs - n) xs"

definition fed :: "LineInfo list \<Rightarrow> string list" where
  "fed pkgs = map (\<lambda>pkg. trim (line pkg)) (filter (\<lambda>pkg. line pkg \<noteq> []) pkgs)"

text \<open>The text between the first opening parenthesis of the line and the cursor.\<close>

definition typedSoFar :: "string \<Rightarrow> nat \<Rightarrow> string" where
  "typedSoFar text cursor =
     (let parLeft = indexOf text CHR ''('' 0 in substr text (parLeft + 1) (int cursor - parLeft - 1))"

text \<open>
  In the words of the spec: a doc-comment block precedes a declaration when the last line
  of the window is the closing \<^verbatim>\<open>###\<close> and an opening \<^verbatim>\<open>###\<close> stands earlier in the window.
\<close>

definition docBlockPrecedes :: "string list \<Rightarrow> bool" where
  "docBlockPrecedes oldLines = (oldLines \<noteq> [] \<and> last oldLines = ''###'' \<and> ''###'' \<in> set (butlast oldLines))"

text \<open>
  A line declares a \<^verbatim>\<open>def\<close> of the keyword when the pattern of \<^verbatim>\<open>getSignatureFromFile\<close>,
  searched from the start of the line, matches.
\<close>

definition defDeclared :: "string \<Rightarrow> string \<Rightarrow> bool" where
  "defDeclared keyword l = (fst (execDecl sigAlts keyword l 0) \<noteq> None)"

text \<open>
  A token of a doc-comment line: not empty, without white space and without \<^verbatim>\<open>#\<close>
  (\<^verbatim>\<open>findDoc\<close> removes every \<^verbatim>\<open>#\<close> of a line).
\<close>

definition validToken :: "string \<Rightarrow> bool" where
  "validToken t = (t \<noteq> [] \<and> (\<forall>c \<in> set t. \<not> isSpace c \<and> c \<noteq> CHR ''#''))"

text \<open>
  A doc-comment block as the syntax contract of the spec has it: the sentinel \<^verbatim>\<open>###\<close>, the
  body lines behind \<^verbatim>\<open>#\<close> and a space, the sentinel. The serialization writes the fields
  of a parsed line back in the format of the contract, \<^verbatim>\<open>@param <name> <type> <comment>\<close> and
  \<^verbatim>\<open>@returns <type> <comment>\<close>, with single spaces.
\<close>

definition commentBlock :: "string list \<Rightarrow> string list" where
  "commentBlock docLines = ''###'' # map (\<lambda>d. ''# '' @ d) docLines @ [''###'']"

definition serializeParam :: "MethodParameter \<Rightarrow> string" where
  "serializeParam p = ''@param '' @ join '' '' (Label p # Type p # (if Comment p = [] then [] else [Comment p]))"

definition serializeReturn :: "DocReturn \<Rightarrow> string" where
  "serializeReturn r = ''@returns '' @ join '' '' (docReturnType r # (if docReturn r = [] then [] else [docReturn r]))"

text \<open>A file can be read when the file system has lines for it.\<close>

definition readable :: "fileSystem \<Rightarrow> string \<Rightarrow> bool" where
  "readable fs file = (fileLines fs file \<noteq> None)"

text \<open>A fresh trigger with the cursor inside the parentheses, on the word \<open>word\<close>.\<close>

definition freshTrigger :: "TextDocument \<Rightarrow> Position \<Rightarrow> SignatureHelpContext \<Rightarrow> string \<Rightarrow> bool" where
  "freshTrigger document position ctx word =
     (lineNumber position < length (documentLines document)
      \<and> \<not> (isRetrigger ctx \<and> activeSignatureHelp ctx \<noteq> None)
      \<and> (let lineText = documentLines document ! lineNumber position;
              parLeft = indexOf lineText CHR ''('' 0
          in parLeft \<le> int (character position)
             \<and> int (character position) \<le> indexOf lineText CHR '')'' parLeft
             \<and> wordAt document (lineNumber position) (parLeft - 1) = Some word))"

section \<open>Inputs for the examples\<close>

text \<open>
  Modelled from the spec: the type table and the constructor of scriptmethod.ts, which is
  not among the sources, for the examples that need a concrete module. The spec has the
  second token of a \<^verbatim>\<open>@param\<close> line "mapped through a type-normalization table;
  unrecognized tokens map to a generic/untyped sentinel"; the names it shows are
  \<^verbatim>\<open>number\<close> and \<^verbatim>\<open>bool\<close>, and the sentinel is the \<^verbatim>\<open>'None'\<close> of \<^verbatim>\<open>findDoc\<close>. A type is
  modelled by its name. The method built from a doc comment has the summary as its
  documentation and the parameter names in its label.
\<close>

definition knownTypes :: "string list" where
  "knownTypes = [''bool'', ''number'']"

definition specModule :: "string scriptmethod" where
  "specModule =
     \<lparr>str2Type = (\<lambda>v. case v of None \<Rightarrow> ''None'' | Some s \<Rightarrow> if s \<in> set knownTypes then s else ''None''),
      type2Str = (\<lambda>t. t),
      newScriptMethod = (\<lambda>info.
        \<lparr>methodName = infoName info,
         methodLabel = infoName info @ ''('' @ join '', '' (map Label (infoParameters info)) @ '')'',
         methodDocumentation = infoComment info,
         methodParameters = map (\<lambda>p. \<lparr>paramLabel = Label p, paramDocumentation = Comment p\<rparr>)
                                (infoParameters info)\<rparr>)\<rparr>"

text \<open>The lines of a file as the reader yields them, numbered from 0.\<close>

definition linesOf :: "string list \<Rightarrow> LineInfo list" where
  "linesOf ls = map (\<lambda>(n, l). \<lparr>line = l, lineNo = n\<rparr>) (enumerate 0 ls)"

definition lines25 :: "string list" where
  "lines25 = [''a'', ''b'', ''c'', ''d'', ''e'', ''f'', ''g'', ''h'', ''i'', ''j'', ''k'', ''l'', ''m'',
              ''n'', ''o'', ''p'', ''q'', ''r'', ''s'', ''t'', ''u'', ''v'', ''w'', ''x'', ''y'']"

definition noFiles :: fileSystem where
  "noFiles = \<lparr>readdirSync = (\<lambda>path. None), fileLines = (\<lambda>path. None)\<rparr>"

definition addHelp :: SignatureHelp where
  "addHelp =
     \<lparr>signatures = [\<lparr>signatureLabel = ''add(a, b)'',
                      parameters = [\<lparr>parameterLabel = ''a'', parameterDocumentation = ''first''\<rparr>,
                                    \<lparr>parameterLabel = ''b'', parameterDocumentation = ''second''\<rparr>]\<rparr>],
      activeSignature = 0,
      activeParameter = 0\<rparr>"

definition callOfAdd :: "string \<Rightarrow> TextDocument" where
  "callOfAdd text = \<lparr>documentLines = [text], fileName = ''main.script'', wordAt = (\<lambda>l c. Some ''add'')\<rparr>"

definition twoFoo :: string where
  "twoFoo = ''def foo(a, b):'' @ [CHR 0x0A] @ ''def foo(a, b):''"

definition addScript :: "string list" where
  "addScript = [''###'', ''# adds two numbers'', ''# @param a number first'', ''# @param b number second'',
                ''# @returns number sum'', ''###'', ''def add(a, b):'', ''  return a + b'', ''end'']"

definition addFiles :: fileSystem where
  "addFiles = \<lparr>readdirSync = map_of [(''ws'', [''lib.script''])],
               fileLines = map_of [(''lib.script'', linesOf addScript)]\<rparr>"

definition addMatch :: RegExpExecArray where
  "addMatch = \<lparr>index = 0, matched = ''def add(a, b):'', group1 = ''def''\<rparr>"

definition fooMatch :: RegExpExecArray where
  "fooMatch = \<lparr>index = 0, matched = ''def foo(a, b):'', group1 = ''def''\<rparr>"

definition threadScript :: "string list" where
  "threadScript = [''###'', ''# blinks the lamp'', ''###'', ''thread blink():'', ''  toggle()'', ''end'',
                   ''###'', ''# the speed'', ''###'', ''global speed = 1'']"

definition threadFiles :: fileSystem where
  "threadFiles = \<lparr>readdirSync = map_of [(''ws'', [''lamp.script''])],
                  fileLines = map_of [(''lamp.script'', linesOf threadScript)]\<rparr>"

definition negDoc :: "string list" where
  "negDoc = [''negates a number'', ''@param a number the input'', ''@returns number the negation'']"

definition widgetBlock :: "string list" where
  "widgetBlock = commentBlock [''sets the widget'', ''@param w widget the one to set'', ''@returns bool done'']"

definition wsFile :: "string \<Rightarrow> string" where
  "wsFile name = ''ws'' @ [CHR 0x5C] @ name"

definition threeFiles :: fileSystem where
  "threeFiles =
     \<lparr>readdirSync = map_of [(''ws'', [''a.script'', ''b.script'', ''c.script''])],
      fileLines = map_of [(wsFile ''a.script'', linesOf [''def move(p):'', ''end'']),
                          (wsFile ''c.script'', linesOf [''def grip():'', ''end'', ''def movel(p):'', ''end''])]\<rparr>"

definition callOf :: "string \<Rightarrow> string \<Rightarrow> TextDocument" where
  "callOf word lineText = \<lparr>documentLines = [lineText], fileName = ''main.script'', wordAt = (\<lambda>l c. Some word)\<rparr>"

definition movejHelp :: SignatureHelp where
  "movejHelp =
     \<lparr>signatures = [\<lparr>signatureLabel = ''movej(q)'',
                      parameters = [\<lparr>parameterLabel = ''q'', parameterDocumentation = ''joint positions''\<rparr>]\<rparr>],
      activeSignature = 0,
      activeParameter = 0\<rparr>"

definition usedCatalog :: "ScriptSignature list" where
  "usedCatalog = [\<lparr>Name = ''movej'', Item = movejHelp\<lparr>activeParameter := 1\<rparr>\<rparr>]"

definition fresh :: SignatureHelpContext where
  "fresh = \<lparr>isRetrigger = False, activeSignatureHelp = None\<rparr>"

text \<open>Three folders: the first has no script, the second has the documented \<^verbatim>\<open>add\<close>, the third cannot be listed.\<close>

definition folderFiles :: fileSystem where
  "folderFiles =
     \<lparr>readdirSync = map_of [(''empty'', []), (''lib'', [''lib.script''])],
      fileLines = map_of [(''lib'' @ [CHR 0x5C] @ ''lib.script'', linesOf addScript)]\<rparr>"

definition threeFolders :: "WorkspaceFolder list" where
  "threeFolders = [\<lparr>fsPath = ''empty''\<rparr>, \<lparr>fsPath = ''lib''\<rparr>, \<lparr>fsPath = ''gone''\<rparr>]"

definition moveFiles :: fileSystem where
  "moveFiles =
     \<lparr>readdirSync = map_of [(''ws'', [''a.script'', ''b.script'', ''c.script''])],
      fileLines = map_of [(wsFile ''a.script'', linesOf [''x = 1'']),
                          (wsFile ''b.script'', linesOf [''def program():'', ''  def move(p):'', ''    movej(p)'', ''  end'', ''end'']),
                          (wsFile ''c.script'', linesOf [''y = 2''])]\<rparr>"

definition globalsFiles :: fileSystem where
  "globalsFiles =
     \<lparr>readdirSync = map_of [(''ws'', [''g.script''])],
      fileLines = map_of [(wsFile ''g.script'',
                           linesOf [''global move_a = 1'', ''global move_b = 2'', ''x = 1'', ''def move_to(p, a):''])]\<rparr>"

section \<open>The line window\<close>

lemma length_lastN: "length (lastN n xs) = min n (length xs)"
  by (simp add: lastN_def)

lemma lastN_append: "lastN n (lastN n xs @ ys) = lastN n (xs @ ys)"
proof (cases "length xs \<le> n")
  case True
  then show ?thesis by (simp add: lastN_def)
next
  case False
  then have "length xs + length ys - (length xs - n + n) + (length xs - n) = length xs + length ys - n"
    by arith
  then show ?thesis by (simp add: lastN_def)
qed

lemma pushOldLines_lastN:
  "length oldLines \<le> 21 \<Longrightarrow> pushOldLines oldLines cur = lastN 21 (oldLines @ [cur])"
proof (cases "length oldLines > 20")
  case True
  assume "length oldLines \<le> 21"
  with True have l: "length oldLines = 21" by simp
  then obtain a w where w: "oldLines = a # w" by (cases oldLines) auto
  with l have "length w = 20" by simp
  with w show ?thesis by (simp add: pushOldLines_def lastN_def)
next
  case False
  then show ?thesis by (simp add: pushOldLines_def lastN_def)
qed

lemma pushOldLines_window: "pushOldLines (lastN 21 xs) cur = lastN 21 (xs @ [cur])"
  by (simp add: pushOldLines_lastN length_lastN lastN_append)

lemma cmpFileLoop_window:
  "fst (snd (cmpFileLoop X keyword pkgs lastIndex (lastN 21 xs) cmpItems)) = lastN 21 (xs @ fed pkgs)"
proof (induction pkgs arbitrary: lastIndex xs cmpItems)
  case Nil
  then show ?case by (simp add: fed_def)
next
  case (Cons pkg pkgs)
  show ?case
  proof (cases "line pkg = []")
    case True
    with Cons.IH show ?thesis by (simp add: fed_def)
  next
    case False
    obtain match lastIndex' where e: "execDecl mthdAlts keyword (trim (line pkg)) lastIndex = (match, lastIndex')"
      by (cases "execDecl mthdAlts keyword (trim (line pkg)) lastIndex")
    from False e show ?thesis
      using Cons.IH [of lastIndex' "xs @ [trim (line pkg)]"]
      by (simp add: pushOldLines_window fed_def)
  qed
qed

lemma hoverFileLoop_window:
  "hoverFileLoop X keyword pre lastIndex (lastN 21 xs) = None \<Longrightarrow>
   \<exists>lastIndex'. hoverFileLoop X keyword (pre @ rest) lastIndex (lastN 21 xs)
                  = hoverFileLoop X keyword rest lastIndex' (lastN 21 (xs @ fed pre))"
proof (induction pre arbitrary: lastIndex xs)
  case Nil
  then show ?case by (auto simp: fed_def)
next
  case (Cons pkg pre)
  show ?case
  proof (cases "line pkg = []")
    case True
    with Cons show ?thesis by (simp add: fed_def)
  next
    case False
    obtain match lastIndex' where e: "execDecl mthdAlts keyword (trim (line pkg)) lastIndex = (match, lastIndex')"
      by (cases "execDecl mthdAlts keyword (trim (line pkg)) lastIndex")
    from False e Cons.prems have n: "parseHover X match (Some (lastN 21 xs)) = None"
      and r: "hoverFileLoop X keyword pre lastIndex' (lastN 21 (xs @ [trim (line pkg)])) = None"
      by (auto simp: pushOldLines_window split: option.splits)
    from Cons.IH [OF r] False e n show ?thesis
      by (simp add: pushOldLines_window fed_def)
  qed
qed

lemma sigFileLoop_window:
  "sigFileLoop X keyword pre lastIndex (lastN 21 xs) = None \<Longrightarrow>
   \<exists>lastIndex'. sigFileLoop X keyword (pre @ rest) lastIndex (lastN 21 xs)
                  = sigFileLoop X keyword rest lastIndex' (lastN 21 (xs @ fed pre))"
proof (induction pre arbitrary: lastIndex xs)
  case Nil
  then show ?case by (auto simp: fed_def)
next
  case (Cons pkg pre)
  show ?case
  proof (cases "line pkg = []")
    case True
    with Cons show ?thesis by (simp add: fed_def)
  next
    case False
    obtain match lastIndex' where e: "execDecl sigAlts keyword (trim (line pkg)) lastIndex = (match, lastIndex')"
      by (cases "execDecl sigAlts keyword (trim (line pkg)) lastIndex")
    from False e Cons.prems have n: "parseSignature X match (Some (lastN 21 xs)) = None"
      and r: "sigFileLoop X keyword pre lastIndex' (lastN 21 (xs @ [trim (line pkg)])) = None"
      by (auto simp: pushOldLines_window split: option.splits)
    from Cons.IH [OF r] False e n show ?thesis
      by (simp add: pushOldLines_window fed_def)
  qed
qed

lemma lastN_Nil: "lastN n [] = []"
  by (simp add: lastN_def)

text \<open>
  Claim C1, as amended. The line window of the file drivers evicts in strict FIFO order,
  and it evicts only when it already holds more than 20 lines, so it keeps 21 of them:
  after any sequence of lines, the window of the completion scan is exactly the last 21
  lines fed (the lines that are not empty, trimmed), and a hover or signature scan that
  has found nothing in a prefix of the file looks for the doc comment of the next line
  in exactly the last 21 lines of that prefix. After 25 lines the last 21 are there and
  the 4 oldest are gone.
\<close>

theorem line_window_keeps_last_21:
  "fst (snd (cmpFileLoop X keyword pkgs 0 [] cmpItems)) = lastN 21 (fed pkgs)
   \<and> (hoverFileLoop X keyword pkgs 0 [] = None \<longrightarrow>
        (\<exists>lastIndex. hoverFileLoop X keyword (pkgs @ rest) 0 []
                        = hoverFileLoop X keyword rest lastIndex (lastN 21 (fed pkgs))))
   \<and> (sigFileLoop X keyword pkgs 0 [] = None \<longrightarrow>
        (\<exists>lastIndex. sigFileLoop X keyword (pkgs @ rest) 0 []
                        = sigFileLoop X keyword rest lastIndex (lastN 21 (fed pkgs))))"
proof (intro conjI impI)
  show "fst (snd (cmpFileLoop X keyword pkgs 0 [] cmpItems)) = lastN 21 (fed pkgs)"
    using cmpFileLoop_window [of X keyword pkgs 0 "[]" cmpItems] by (simp add: lastN_Nil)
next
  assume "hoverFileLoop X keyword pkgs 0 [] = None"
  then show "\<exists>lastIndex. hoverFileLoop X keyword (pkgs @ rest) 0 []
                = hoverFileLoop X keyword rest lastIndex (lastN 21 (fed pkgs))"
    using hoverFileLoop_window [of X keyword pkgs 0 "[]" rest] by (simp add: lastN_Nil)
next
  assume "sigFileLoop X keyword pkgs 0 [] = None"
  then show "\<exists>lastIndex. sigFileLoop X keyword (pkgs @ rest) 0 []
                = sigFileLoop X keyword rest lastIndex (lastN 21 (fed pkgs))"
    using sigFileLoop_window [of X keyword pkgs 0 "[]" rest] by (simp add: lastN_Nil)
qed

lemma fed_lines25: "fed (linesOf lines25) = lines25"
  by (simp add: fed_def linesOf_def lines25_def trim_def isSpace_def)

lemma lastN_lines25: "lastN 21 lines25 = drop 4 lines25"
  by (simp add: lastN_def lines25_def)

theorem line_window_keeps_last_21_witness:
  "fst (snd (cmpFileLoop specModule ''foo'' (linesOf lines25) 0 [] [])) = drop 4 lines25
   \<and> hoverFileLoop specModule ''foo'' (linesOf lines25) 0 [] = None
   \<and> (\<exists>lastIndex. hoverFileLoop specModule ''foo'' (linesOf lines25 @ linesOf [''def foo():'']) 0 []
                      = hoverFileLoop specModule ''foo'' (linesOf [''def foo():'']) lastIndex (drop 4 lines25))
   \<and> sigFileLoop specModule ''foo'' (linesOf lines25) 0 [] = None
   \<and> (\<exists>lastIndex. sigFileLoop specModule ''foo'' (linesOf lines25 @ linesOf [''def foo():'']) 0 []
                      = sigFileLoop specModule ''foo'' (linesOf [''def foo():'']) lastIndex (drop 4 lines25))"
proof -
  have h: "hoverFileLoop specModule ''foo'' (linesOf lines25) 0 [] = None"
    by code_simp
  have s: "sigFileLoop specModule ''foo'' (linesOf lines25) 0 [] = None"
    by code_simp
  note t = line_window_keeps_last_21 [of specModule "''foo''" "linesOf lines25" "[]" "linesOf [''def foo():'']",
      unfolded fed_lines25 lastN_lines25]
  from t h s show ?thesis by blast
qed

text \<open>
  Claim C1 as it is written fails: after 25 lines the window is not the last 20 of them,
  and the fifth line (\<open>''e''\<close>), one of the 5 oldest, is still in it.
\<close>

theorem line_window_capacity_20_counterexample:
  "fst (snd (cmpFileLoop specModule ''foo'' (linesOf lines25) 0 [] [])) \<noteq> drop 5 lines25
   \<and> lines25 ! 4 \<in> set (fst (snd (cmpFileLoop specModule ''foo'' (linesOf lines25) 0 [] [])))"
  by code_simp

section \<open>The retrigger\<close>

lemma split_not_Nil: "split sep s \<noteq> []"
  by (induction s) (auto split: list.splits)

lemma length_split: "length (split sep s) = Suc (count_list s sep)"
proof (induction s)
  case Nil
  then show ?case by simp
next
  case (Cons c cs)
  obtain w ws where "split sep cs = w # ws"
    using split_not_Nil [of sep cs] by (cases "split sep cs") auto
  with Cons show ?case by auto
qed

text \<open>
  Claim C2, as amended. On a retrigger with a cached active signature, with the cursor
  between the first opening parenthesis of the line and the closing one after it, the
  identifier is not resolved again (the result depends on neither the catalog, the
  document's words, the files nor the folders, and the catalog is left as it is): the
  cached signature comes back with its active-parameter index set to the number of
  commas between the opening parenthesis and the cursor, which is the number of pieces
  of the comma split minus one. With two commas before the cursor the index is 2.
\<close>

theorem retrigger_counts_commas:
  assumes "lineNumber position < length (documentLines document)"
    and "lineText = documentLines document ! lineNumber position"
    and "isRetrigger ctx"
    and "activeSignatureHelp ctx = Some active"
    and "indexOf lineText CHR ''('' 0 \<le> int (character position)"
    and "int (character position) \<le> indexOf lineText CHR '')'' (indexOf lineText CHR ''('' 0)"
  shows "provideSignatureHelp X fs getSignatureFromDocument workspaceFolders scriptSignatures document position ctx
           = (Some (active\<lparr>activeParameter := count_list (typedSoFar lineText (character position)) CHR '',''\<rparr>),
              scriptSignatures)"
  using assms by (simp add: provideSignatureHelp_def Let_def length_split typedSoFar_def)

theorem retrigger_counts_commas_witness:
  "provideSignatureHelp specModule noFiles (\<lambda>d w. Inr None) None [] (callOfAdd ''add(1,2,)'')
      \<lparr>lineNumber = 0, character = 8\<rparr> \<lparr>isRetrigger = True, activeSignatureHelp = Some addHelp\<rparr>
     = (Some (addHelp\<lparr>activeParameter := 2\<rparr>), [])"
proof -
  have l: "indexOf ''add(1,2,)'' CHR ''('' 0 = 3" by code_simp
  have r: "indexOf ''add(1,2,)'' CHR '')'' 3 = 8" by code_simp
  have c: "count_list (typedSoFar ''add(1,2,)'' 8) CHR '','' = 2" by code_simp
  show ?thesis
    using retrigger_counts_commas [where position = "\<lparr>lineNumber = 0, character = 8\<rparr>"
        and document = "callOfAdd ''add(1,2,)''" and lineText = "''add(1,2,)''"
        and ctx = "\<lparr>isRetrigger = True, activeSignatureHelp = Some addHelp\<rparr>" and active = addHelp
        and X = specModule and fs = noFiles and getSignatureFromDocument = "\<lambda>d w. Inr None"
        and workspaceFolders = None and scriptSignatures = "[]"]
    by (simp add: callOfAdd_def l r c)
qed

text \<open>
  Claim C2 as it is written fails: after \<^verbatim>\<open>add(1,2,\<close> the index is not 1. With the closing
  parenthesis the editor adds, the retrigger sets it to 2; on a line without a closing
  parenthesis the provider returns nothing.
\<close>

theorem retrigger_index_counterexample:
  "map_option activeParameter
     (fst (provideSignatureHelp specModule noFiles (\<lambda>d w. Inr None) None [] (callOfAdd ''add(1,2,)'')
             \<lparr>lineNumber = 0, character = 8\<rparr> \<lparr>isRetrigger = True, activeSignatureHelp = Some addHelp\<rparr>))
     = Some 2
   \<and> fst (provideSignatureHelp specModule noFiles (\<lambda>d w. Inr None) None [] (callOfAdd ''add(1,2,'')
             \<lparr>lineNumber = 0, character = 8\<rparr> \<lparr>isRetrigger = True, activeSignatureHelp = Some addHelp\<rparr>)
     = None"
  by code_simp

section \<open>Completion entries\<close>

lemma label_newCmpItem: "label (newCmpItem X v name oldLines) = name"
  by (simp add: newCmpItem_def Let_def split: option.splits)

lemma distinct_parseCmpValue:
  "distinct (map label cmpItems) \<Longrightarrow> distinct (map label (parseCmpValue X oldLines cmpItems val))"
  by (auto simp: parseCmpValue_def label_newCmpItem find_None_iff split: option.splits)

lemma distinct_foldl_parseCmpValue:
  "distinct (map label cmpItems) \<Longrightarrow> distinct (map label (foldl (parseCmpValue X oldLines) cmpItems vals))"
  by (induction vals arbitrary: cmpItems) (simp_all add: distinct_parseCmpValue)

lemma distinct_parseCmpItem:
  "distinct (map label cmpItems) \<Longrightarrow> distinct (map label (parseCmpItem X matchResult cmpItems oldLines))"
  by (simp add: parseCmpItem_def distinct_foldl_parseCmpValue split: option.splits)

lemma distinct_textLoop:
  "distinct (map label cmpItems) \<Longrightarrow> distinct (map label (textLoop X keyword src lastIndex cmpItems))"
proof (induction X keyword src lastIndex cmpItems rule: textLoop.induct)
  case (1 X keyword src lastIndex cmpItems)
  show ?case
  proof (cases "execDecl mthdAlts keyword src lastIndex")
    case (Pair match lastIndex')
    show ?thesis
    proof (cases match)
      case None
      with Pair "1.prems" show ?thesis by (simp add: textLoop.simps [of X keyword src lastIndex])
    next
      case (Some m)
      with Pair have e: "execDecl mthdAlts keyword src lastIndex = (Some m, lastIndex')" by simp
      have "distinct (map label (parseCmpItem X (Some m) cmpItems None))"
        using "1.prems" by (rule distinct_parseCmpItem)
      then have "distinct (map label (textLoop X keyword src lastIndex' (parseCmpItem X (Some m) cmpItems None)))"
        using "1.IH" e by simp
      with e show ?thesis by (simp add: textLoop.simps [of X keyword src lastIndex])
    qed
  qed
qed

lemma distinct_cmpFileLoop:
  "distinct (map label cmpItems) \<Longrightarrow>
   distinct (map label (fst (cmpFileLoop X keyword pkgs lastIndex oldLines cmpItems)))"
proof (induction pkgs arbitrary: lastIndex oldLines cmpItems)
  case Nil
  then show ?case by simp
next
  case (Cons pkg pkgs)
  then show ?case
    by (auto simp: Let_def distinct_parseCmpItem split: prod.splits)
qed

text \<open>
  Claim C4. A completion scan never leaves two entries with the same label in the
  collection: a scan that starts from the empty collection gives entries with distinct
  labels, for every text and every literal keyword, and a scan that is handed a collection with
  distinct labels keeps them distinct; the same holds for the scan of a file. An
  entry is pushed only when no entry of the collection has its label. For the text with
  \<^verbatim>\<open>def foo(a, b):\<close> twice the scan gives the one entry \<^verbatim>\<open>foo\<close>.
\<close>

theorem completion_labels_distinct:
  assumes "literalKeyword keyword"
  shows "distinct (map label (getCompletionItemsFromText X src keyword []))
   \<and> (distinct (map label cmpItems) \<longrightarrow>
        distinct (map label (getCompletionItemsFromText X src keyword cmpItems))
        \<and> distinct (map label (getCompletionItemsFromFile X fs file keyword cmpItems)))"
  by (simp add: getCompletionItemsFromText_def getCompletionItemsFromFile_def
      distinct_textLoop distinct_cmpFileLoop)

theorem completion_labels_distinct_witness:
  "map label (getCompletionItemsFromText specModule twoFoo ''fo'' []) = [''foo'']
   \<and> distinct (map label (getCompletionItemsFromText specModule twoFoo ''fo'' []))
   \<and> distinct (map label (getCompletionItemsFromText specModule twoFoo ''fo''
                                (getCompletionItemsFromText specModule twoFoo ''fo'' [])))
   \<and> distinct (map label (getCompletionItemsFromFile specModule noFiles ''a.script'' ''fo''
                                (getCompletionItemsFromText specModule twoFoo ''fo'' [])))"
proof -
  have k: "literalKeyword ''fo''"
    by code_simp
  have l: "map label (getCompletionItemsFromText specModule twoFoo ''fo'' []) = [''foo'']"
    by code_simp
  note t = completion_labels_distinct [OF k, of specModule twoFoo
      "getCompletionItemsFromText specModule twoFoo ''fo'' []" noFiles "''a.script''"]
  from t l show ?thesis by simp
qed

section \<open>Documentation and signatures\<close>

lemma scanBack_less: "scanBack ls k < int k"
  by (induction k) auto

lemma scanBack_found: "(scanBack ls k > - 1) = (\<exists>i<k. ls ! i = ''###'')"
  by (induction k) (auto simp: less_Suc_eq)

lemma in_set_butlast_nth: "(x \<in> set (butlast ls)) = (\<exists>i < length ls - 1. ls ! i = x)"
  by (auto simp: in_set_conv_nth nth_butlast)

lemma findDocInfo_Some_iff: "(findDocInfo X name (Some ls) \<noteq> None) = docBlockPrecedes ls"
proof -
  have "scanBack ls (length ls - 1) < int (length ls) - 1 \<or> ls = []"
    using scanBack_less [of ls "length ls - 1"] by (cases ls) auto
  then show ?thesis
    by (auto simp: findDocInfo_def docBlockPrecedes_def Let_def scanBack_found in_set_butlast_nth)
qed

lemma findDoc_Some_iff: "(findDoc X name (Some ls) \<noteq> None) = docBlockPrecedes ls"
  using findDocInfo_Some_iff [of X name ls] by (simp add: findDoc_def)

lemma findDoc_no_window: "findDoc X name None = None"
  by (simp add: findDoc_def findDocInfo_def)

lemma findDoc_None_iff: "(findDoc X name (Some ls) = None) = (\<not> docBlockPrecedes ls)"
  using findDoc_Some_iff [of X name ls] by (cases "findDoc X name (Some ls)") auto

lemma parseSignature_Some_iff:
  "(parseSignature X (Some m) (Some oldLines) \<noteq> None) = (execName (matched m) \<noteq> None \<and> docBlockPrecedes oldLines)"
proof (cases "execName (matched m)")
  case None
  then show ?thesis by (simp add: parseSignature_def)
next
  case (Some r)
  obtain i name where "r = (i, name)" by (cases r)
  with Some show ?thesis
    using findDoc_None_iff [of X name oldLines]
    by (cases "findDoc X name (Some oldLines)") (simp_all add: parseSignature_def)
qed

lemma sigFileLoop_Some:
  "sigFileLoop X keyword pkgs lastIndex (lastN 21 xs) = Some sigHelp \<Longrightarrow>
   \<exists>pre pkg rest li m. pkgs = pre @ pkg # rest \<and> line pkg \<noteq> []
      \<and> fst (execDecl sigAlts keyword (trim (line pkg)) li) = Some m
      \<and> parseSignature X (Some m) (Some (lastN 21 (xs @ fed pre))) = Some sigHelp"
proof (induction pkgs arbitrary: lastIndex xs)
  case Nil
  then show ?case by simp
next
  case (Cons pkg pkgs)
  show ?case
  proof (cases "line pkg = []")
    case True
    with Cons.prems have "sigFileLoop X keyword pkgs lastIndex (lastN 21 xs) = Some sigHelp" by simp
    from Cons.IH [OF this] obtain pre p rest li m where
      "pkgs = pre @ p # rest" "line p \<noteq> []" "fst (execDecl sigAlts keyword (trim (line p)) li) = Some m"
      "parseSignature X (Some m) (Some (lastN 21 (xs @ fed pre))) = Some sigHelp" by blast
    with True have "pkg # pkgs = (pkg # pre) @ p # rest \<and> line p \<noteq> []
      \<and> fst (execDecl sigAlts keyword (trim (line p)) li) = Some m
      \<and> parseSignature X (Some m) (Some (lastN 21 (xs @ fed (pkg # pre)))) = Some sigHelp"
      by (simp add: fed_def)
    then show ?thesis by blast
  next
    case False
    obtain match lastIndex' where e: "execDecl sigAlts keyword (trim (line pkg)) lastIndex = (match, lastIndex')"
      by (cases "execDecl sigAlts keyword (trim (line pkg)) lastIndex")
    show ?thesis
    proof (cases "parseSignature X match (Some (lastN 21 xs))")
      case (Some s)
      with False e Cons.prems have s: "s = sigHelp" by simp
      from Some obtain m where m: "match = Some m" by (cases match) (auto simp: parseSignature_def)
      from False e Some s m have "pkg # pkgs = [] @ pkg # pkgs \<and> line pkg \<noteq> []
        \<and> fst (execDecl sigAlts keyword (trim (line pkg)) lastIndex) = Some m
        \<and> parseSignature X (Some m) (Some (lastN 21 (xs @ fed []))) = Some sigHelp"
        by (simp add: fed_def)
      then show ?thesis by blast
    next
      case None
      with False e Cons.prems
      have "sigFileLoop X keyword pkgs lastIndex' (lastN 21 (xs @ [trim (line pkg)])) = Some sigHelp"
        by (simp add: pushOldLines_window)
      from Cons.IH [OF this] obtain pre p rest li m where
        "pkgs = pre @ p # rest" "line p \<noteq> []" "fst (execDecl sigAlts keyword (trim (line p)) li) = Some m"
        "parseSignature X (Some m) (Some (lastN 21 ((xs @ [trim (line pkg)]) @ fed pre))) = Some sigHelp" by blast
      with False have "pkg # pkgs = (pkg # pre) @ p # rest \<and> line p \<noteq> []
        \<and> fst (execDecl sigAlts keyword (trim (line p)) li) = Some m
        \<and> parseSignature X (Some m) (Some (lastN 21 (xs @ fed (pkg # pre)))) = Some sigHelp"
        by (simp add: fed_def)
      then show ?thesis by blast
    qed
  qed
qed

text \<open>
  Claim C5. \<^verbatim>\<open>parseSignature\<close> gives a signature exactly when the match yields a name and a
  doc-comment block precedes the declaration in the window; without a match, without a
  window, or with a window that does not end in a block (none, or one whose sentinels are
  malformed), its result is the absent value, which is a result and not an error: the
  model of the function has no raising branch. A signature that \<^verbatim>\<open>getSignatureFromFile\<close>
  returns comes from a line of the file in front of which, within the window, such a
  block stands.
\<close>

theorem signature_only_with_documentation:
  "(parseSignature X (Some m) (Some oldLines) \<noteq> None)
      = (execName (matched m) \<noteq> None \<and> docBlockPrecedes oldLines)
   \<and> (\<not> docBlockPrecedes oldLines \<longrightarrow> parseSignature X matchResult (Some oldLines) = None)
   \<and> parseSignature X None (Some oldLines) = None
   \<and> parseSignature X matchResult None = None
   \<and> (getSignatureFromFile X fs file keyword = Some sigHelp \<longrightarrow>
        (\<exists>pre pkg rest. ReadLinesSync fs file = pre @ pkg # rest \<and> docBlockPrecedes (lastN 21 (fed pre))))"
proof (intro conjI impI)
  show "(parseSignature X (Some m) (Some oldLines) \<noteq> None)
          = (execName (matched m) \<noteq> None \<and> docBlockPrecedes oldLines)"
    by (rule parseSignature_Some_iff)
next
  assume "\<not> docBlockPrecedes oldLines"
  then show "parseSignature X matchResult (Some oldLines) = None"
    using parseSignature_Some_iff [of X _ oldLines]
    by (cases matchResult) (auto simp: parseSignature_def)
next
  show "parseSignature X None (Some oldLines) = None"
    by (simp add: parseSignature_def)
next
  show "parseSignature X matchResult None = None"
    by (simp add: parseSignature_def findDoc_no_window split: option.splits)
next
  assume "getSignatureFromFile X fs file keyword = Some sigHelp"
  then have "sigFileLoop X keyword (ReadLinesSync fs file) 0 (lastN 21 []) = Some sigHelp"
    by (simp add: getSignatureFromFile_def lastN_Nil)
  from sigFileLoop_Some [OF this] obtain pre pkg rest li m where
    p: "ReadLinesSync fs file = pre @ pkg # rest"
    and s: "parseSignature X (Some m) (Some (lastN 21 ([] @ fed pre))) = Some sigHelp"
    by blast
  from s have "docBlockPrecedes (lastN 21 (fed pre))"
    using parseSignature_Some_iff [of X m "lastN 21 (fed pre)"] by simp
  with p show "\<exists>pre pkg rest. ReadLinesSync fs file = pre @ pkg # rest \<and> docBlockPrecedes (lastN 21 (fed pre))"
    by blast
qed

theorem signature_only_with_documentation_witness:
  "parseSignature specModule (Some addMatch) (Some (take 6 addScript)) = Some addHelp
   \<and> docBlockPrecedes (take 6 addScript)
   \<and> \<not> docBlockPrecedes [''# adds two numbers'', ''##'']
   \<and> parseSignature specModule (Some addMatch) (Some [''# adds two numbers'', ''##'']) = None
   \<and> getSignatureFromFile specModule addFiles ''lib.script'' ''add'' = Some addHelp
   \<and> (\<exists>pre pkg rest. ReadLinesSync addFiles ''lib.script'' = pre @ pkg # rest
                          \<and> docBlockPrecedes (lastN 21 (fed pre)))"
proof -
  have a: "parseSignature specModule (Some addMatch) (Some (take 6 addScript)) = Some addHelp"
    by code_simp
  have b: "docBlockPrecedes (take 6 addScript)"
    by code_simp
  have c: "\<not> docBlockPrecedes [''# adds two numbers'', ''##'']"
    by code_simp
  have d: "getSignatureFromFile specModule addFiles ''lib.script'' ''add'' = Some addHelp"
    by code_simp
  note t = signature_only_with_documentation [of specModule addMatch _ "Some addMatch" addFiles
      "''lib.script''" "''add''" addHelp]
  from t [of "[''# adds two numbers'', ''##'']"] c
  have e: "parseSignature specModule (Some addMatch) (Some [''# adds two numbers'', ''##'']) = None"
    by blast
  from t [of "take 6 addScript"] d
  have f: "\<exists>pre pkg rest. ReadLinesSync addFiles ''lib.script'' = pre @ pkg # rest
                          \<and> docBlockPrecedes (lastN 21 (fed pre))"
    by blast
  from a b c d e f show ?thesis by blast
qed

section \<open>Declarations without documentation\<close>

lemma execName_keyword: "g \<in> set mthdAlts \<Longrightarrow> execName g = None"
  by (auto simp: mthdAlts_def execName_def startsWith_def wordBoundary_def isWordChar_def)

lemma newCmpItem_undocumented:
  "findDoc X name oldLines = None \<Longrightarrow>
     newCmpItem X v name oldLines = newCmpItem Y v name None \<and> documentation (newCmpItem X v name oldLines) = None"
  by (simp add: newCmpItem_def findDoc_no_window Let_def split: option.splits)

text \<open>
  Claim C9, as amended. A matched declaration line with no doc-comment block in front of
  it (none, or one whose sentinels are malformed), whose name the name pattern finds and
  which is not yet in the collection, adds exactly one completion entry, and that entry
  is built from the declaration alone: it is the entry built without any window, it does
  not depend on the documentation module, it carries the name as its label and has no
  documentation. No descriptor is made for such a declaration (\<^verbatim>\<open>findDoc\<close> returns
  nothing), so the entry has neither a summary nor a return type. The functions involved
  have no raising branch.
\<close>

theorem undocumented_declaration_entry:
  assumes "execDecl mthdAlts keyword cur lastIndex = (Some m, lastIndex')"
    and "execName (matched m) = Some (i, name)"
    and "name \<notin> label ` set cmpItems"
    and "\<not> docBlockPrecedes oldLines"
  shows "parseCmpItem X (Some m) cmpItems (Some oldLines) = cmpItems @ [newCmpItem X (matched m) name None]
         \<and> newCmpItem X (matched m) name None = newCmpItem Y (matched m) name None
         \<and> label (newCmpItem X (matched m) name None) = name
         \<and> documentation (newCmpItem X (matched m) name None) = None"
proof -
  from execDecl_bounds [OF assms(1)] have g: "group1 m \<in> set mthdAlts" and ne: "matched m \<noteq> []"
    by auto
  from assms(4) have d: "findDoc X name (Some oldLines) = None"
    by (simp add: findDoc_None_iff)
  from assms(3) have f: "find (\<lambda>cmp. label cmp = name) cmpItems = None"
    by (auto simp: find_None_iff)
  have n: "newCmpItem X (matched m) name (Some oldLines) = newCmpItem X (matched m) name None"
    using newCmpItem_undocumented [OF d, where Y = X] by simp
  have 1: "parseCmpValue X (Some oldLines) cmpItems (Some (matched m)) = cmpItems @ [newCmpItem X (matched m) name None]"
    using assms(2) ne f n by (simp add: parseCmpValue_def)
  have 2: "parseCmpValue X (Some oldLines) xs (Some (group1 m)) = xs" for xs
    using execName_keyword [OF g] by (simp add: parseCmpValue_def)
  have 3: "parseCmpValue X (Some oldLines) xs None = xs" for xs
    by (simp add: parseCmpValue_def)
  have "parseCmpItem X (Some m) cmpItems (Some oldLines) = cmpItems @ [newCmpItem X (matched m) name None]"
    by (simp add: parseCmpItem_def elements_def 1 2 3)
  moreover have "newCmpItem X (matched m) name None = newCmpItem Y (matched m) name None"
    using newCmpItem_undocumented [of X name None "matched m" Y] by (simp add: findDoc_no_window)
  moreover have "documentation (newCmpItem X (matched m) name None) = None"
    using newCmpItem_undocumented [of X name None "matched m" X] by (simp add: findDoc_no_window)
  ultimately show ?thesis by (simp add: label_newCmpItem)
qed

theorem undocumented_declaration_entry_witness:
  "parseCmpItem specModule (Some fooMatch) [] (Some [''x = 1''])
     = [newCmpItem specModule ''def foo(a, b):'' ''foo'' None]
   \<and> label (newCmpItem specModule ''def foo(a, b):'' ''foo'' None) = ''foo''
   \<and> detail (newCmpItem specModule ''def foo(a, b):'' ''foo'' None) = ''foo(a, b)''
   \<and> documentation (newCmpItem specModule ''def foo(a, b):'' ''foo'' None) = None"
proof -
  have 1: "execDecl mthdAlts ''foo'' ''def foo(a, b):'' 0 = (Some fooMatch, 14)"
    by code_simp
  have 2: "execName (matched fooMatch) = Some (4, ''foo'')"
    by code_simp
  have 3: "''foo'' \<notin> label ` set []"
    by simp
  have 4: "\<not> docBlockPrecedes [''x = 1'']"
    by code_simp
  have 5: "detail (newCmpItem specModule ''def foo(a, b):'' ''foo'' None) = ''foo(a, b)''"
    by code_simp
  have 6: "matched fooMatch = ''def foo(a, b):''"
    by (simp add: fooMatch_def)
  from undocumented_declaration_entry [OF 1 2 3 4, of specModule specModule] 5 show ?thesis
    by (simp add: 6)
qed

text \<open>
  Claim C9 as it is written fails: for \<^verbatim>\<open>def foo(a, b):\<close> after the line \<^verbatim>\<open>x = 1\<close> there is
  no descriptor with an empty summary and the return type \<^verbatim>\<open>None\<close>; \<^verbatim>\<open>findDoc\<close> gives
  nothing, and the entry has no documentation and shows no return type.
\<close>

theorem undocumented_descriptor_counterexample:
  "findDocInfo specModule ''foo'' (Some [''x = 1'']) = None
   \<and> parseCmpItem specModule (Some fooMatch) [] (Some [''x = 1''])
       = [\<lparr>label = ''foo'', kind = KindFunction,
           insertText = SnippetString ''foo(${1:a}, ${2:b})$0'',
           detail = ''foo(a, b)'', documentation = None,
           commitCharacters = [[CHR 0x09], '' '', [CHR 0x0A]]\<rparr>]"
  by code_simp

text \<open>
  The name pattern skips every word that starts with \<^verbatim>\<open>def\<close>, \<^verbatim>\<open>thread\<close> or \<^verbatim>\<open>global\<close>, not
  only the three keywords: a function called \<^verbatim>\<open>default_pose\<close> gets no completion entry.
\<close>

lemma name_with_keyword_prefix_skipped:
  "fst (execDecl mthdAlts '''' ''def default_pose():'' 0)
     = Some \<lparr>index = 0, matched = ''def default_pose():'', group1 = ''def''\<rparr>
   \<and> parseCmpItem specModule (fst (execDecl mthdAlts '''' ''def default_pose():'' 0)) [] (Some []) = []"
  by code_simp

section \<open>Signature help is for def only\<close>

lemma searchDecl_prefix:
  "searchDecl alts keyword (if xs = [] then prev else Some (last xs)) s (i + length xs) = Some m \<Longrightarrow>
   \<exists>m'. searchDecl alts keyword prev (xs @ s) i = Some m'"
proof (induction xs arbitrary: prev i)
  case Nil
  then show ?case by simp
next
  case (Cons x xs)
  show ?case
  proof (cases "if wordBoundary prev (x # xs @ s) then matchAlts alts keyword (x # xs @ s) else None")
    case (Some mg)
    then show ?thesis by (cases mg) simp
  next
    case None
    from Cons.prems have "searchDecl alts keyword (if xs = [] then Some x else Some (last xs)) s (Suc i + length xs) = Some m"
      by (cases "xs = []") simp_all
    from Cons.IH [OF this] obtain m' where "searchDecl alts keyword (Some x) (xs @ s) (Suc i) = Some m'" by blast
    with None show ?thesis by simp
  qed
qed

lemma execDecl_from_start:
  assumes "fst (execDecl alts keyword l lastIndex) = Some m"
  shows "fst (execDecl alts keyword l 0) \<noteq> None"
proof -
  from assms have le: "lastIndex \<le> length l"
    and s: "searchDecl alts keyword (charBefore l lastIndex) (drop lastIndex l) lastIndex = Some m"
    by (auto simp: execDecl_def split: if_splits option.splits)
  have c: "charBefore l lastIndex = (if take lastIndex l = [] then None else Some (last (take lastIndex l)))"
    using le by (auto simp: charBefore_def last_conv_nth)
  from le have len: "length (take lastIndex l) = lastIndex" by simp
  from s c len have "searchDecl alts keyword (if take lastIndex l = [] then None else Some (last (take lastIndex l)))
      (drop lastIndex l) (0 + length (take lastIndex l)) = Some m" by simp
  from searchDecl_prefix [OF this] obtain m' where "searchDecl alts keyword None l 0 = Some m'" by auto
  then show ?thesis by (simp add: execDecl_def charBefore_def)
qed

lemma matchAlts_startsWith: "matchAlts alts keyword s = Some (m, g) \<Longrightarrow> startsWith g m"
  by (induction alts) (auto simp: startsWith_def split: if_splits option.splits)

lemma searchDecl_startsWith: "searchDecl alts keyword prev s i = Some m \<Longrightarrow> startsWith (group1 m) (matched m)"
proof (induction s arbitrary: prev i)
  case Nil
  then show ?case by (auto split: option.splits if_splits dest: matchAlts_startsWith)
next
  case (Cons c cs)
  then show ?case by (auto split: option.splits if_splits dest: matchAlts_startsWith)
qed

lemma sigFileLoop_None:
  assumes "\<forall>l \<in> set (fed pkgs). \<not> defDeclared keyword l"
  shows "sigFileLoop X keyword pkgs lastIndex (lastN 21 xs) = None"
proof (rule ccontr)
  assume "sigFileLoop X keyword pkgs lastIndex (lastN 21 xs) \<noteq> None"
  then obtain sigHelp where "sigFileLoop X keyword pkgs lastIndex (lastN 21 xs) = Some sigHelp" by auto
  from sigFileLoop_Some [OF this] obtain pre pkg rest li m where
    p: "pkgs = pre @ pkg # rest" and n: "line pkg \<noteq> []"
    and e: "fst (execDecl sigAlts keyword (trim (line pkg)) li) = Some m" by blast
  from p n have "trim (line pkg) \<in> set (fed pkgs)" by (auto simp: fed_def)
  moreover from execDecl_from_start [OF e] have "defDeclared keyword (trim (line pkg))"
    by (simp add: defDeclared_def)
  ultimately show False using assms by blast
qed

text \<open>
  Claim C10. The pattern of \<^verbatim>\<open>getSignatureFromFile\<close> has the alternative \<^verbatim>\<open>def\<close> only: for a
  literal keyword every match of it starts with \<^verbatim>\<open>def\<close>, and in a file none of whose lines
  declares a \<^verbatim>\<open>def\<close> of the keyword the scan gives no signature help, whatever \<^verbatim>\<open>thread\<close> and
  \<^verbatim>\<open>global\<close> declarations and doc-comment blocks the file has. For a documented \<^verbatim>\<open>thread\<close> and a
  documented \<^verbatim>\<open>global\<close> the hover scan answers and the signature scan does not.
\<close>

theorem signature_scan_def_only:
  assumes "literalKeyword keyword"
  shows "(fst (execDecl sigAlts keyword l lastIndex) = Some m \<longrightarrow>
      group1 m = ''def'' \<and> startsWith ''def'' (matched m))
   \<and> ((\<forall>l \<in> set (fed (ReadLinesSync fs file)). \<not> defDeclared keyword l) \<longrightarrow>
        getSignatureFromFile X fs file keyword = None)"
proof (intro conjI impI)
  assume a: "fst (execDecl sigAlts keyword l lastIndex) = Some m"
  then have s: "searchDecl sigAlts keyword (charBefore l lastIndex) (drop lastIndex l) lastIndex = Some m"
    by (auto simp: execDecl_def split: if_splits option.splits)
  from searchDecl_bounds [OF s] have "group1 m = ''def''" by (simp add: sigAlts_def)
  with searchDecl_startsWith [OF s] show "group1 m = ''def''" and "startsWith ''def'' (matched m)" by simp_all
next
  assume "\<forall>l \<in> set (fed (ReadLinesSync fs file)). \<not> defDeclared keyword l"
  then show "getSignatureFromFile X fs file keyword = None"
    using sigFileLoop_None [of "ReadLinesSync fs file" keyword X 0 "[]"]
    by (simp add: getSignatureFromFile_def lastN_Nil)
qed

theorem signature_scan_def_only_witness:
  "getSignatureFromFile specModule threadFiles ''lamp.script'' ''blink'' = None
   \<and> getHoverFromFile specModule threadFiles ''lamp.script'' ''blink''
       = Some [CodeBlock ''urscript'' ''thread  blink'', Documentation ''blinks the lamp'']
   \<and> getSignatureFromFile specModule threadFiles ''lamp.script'' ''speed'' = None
   \<and> getHoverFromFile specModule threadFiles ''lamp.script'' ''speed''
       = Some [CodeBlock ''urscript'' ''global speed'', Documentation ''the speed'']
   \<and> fst (execDecl sigAlts ''add'' ''def add(a, b):'' 0) = Some addMatch
   \<and> group1 addMatch = ''def'' \<and> startsWith ''def'' (matched addMatch)"
proof -
  have b: "\<forall>l \<in> set (fed (ReadLinesSync threadFiles ''lamp.script'')). \<not> defDeclared ''blink'' l"
    by code_simp
  have s: "\<forall>l \<in> set (fed (ReadLinesSync threadFiles ''lamp.script'')). \<not> defDeclared ''speed'' l"
    by code_simp
  have hb: "getHoverFromFile specModule threadFiles ''lamp.script'' ''blink''
       = Some [CodeBlock ''urscript'' ''thread  blink'', Documentation ''blinks the lamp'']"
    by code_simp
  have hs: "getHoverFromFile specModule threadFiles ''lamp.script'' ''speed''
       = Some [CodeBlock ''urscript'' ''global speed'', Documentation ''the speed'']"
    by code_simp
  have m: "fst (execDecl sigAlts ''add'' ''def add(a, b):'' 0) = Some addMatch"
    by code_simp
  have ka: "literalKeyword ''add''" by code_simp
  have kb: "literalKeyword ''blink''" by code_simp
  have ks: "literalKeyword ''speed''" by code_simp
  note t = signature_scan_def_only [of _ "''def add(a, b):''" 0 addMatch threadFiles "''lamp.script''" specModule]
  from t [OF ka] m have 1: "group1 addMatch = ''def'' \<and> startsWith ''def'' (matched addMatch)"
    by blast
  from t [OF kb] b have 2: "getSignatureFromFile specModule threadFiles ''lamp.script'' ''blink'' = None"
    by blast
  from t [OF ks] s have 3: "getSignatureFromFile specModule threadFiles ''lamp.script'' ''speed'' = None"
    by blast
  from hb hs m 1 2 3 show ?thesis by blast
qed

section \<open>The round trip of a doc-comment block\<close>

lemma split_no_sep: "sep \<notin> set w \<Longrightarrow> split sep w = [w]"
  by (induction w) auto

lemma split_append_sep: "sep \<notin> set w \<Longrightarrow> split sep (w @ sep # r) = w # split sep r"
  by (induction w) auto

lemma split_join:
  "ts \<noteq> [] \<Longrightarrow> \<forall>t \<in> set ts. sep \<notin> set t \<Longrightarrow> split sep (join [sep] ts) = ts"
proof (induction ts)
  case Nil
  then show ?case by simp
next
  case (Cons x ts)
  then show ?case
    by (cases ts) (simp_all add: split_no_sep split_append_sep)
qed

lemma isSpace_space: "isSpace CHR '' ''"
  by (simp add: isSpace_def)

lemma validToken_no_space: "validToken t \<Longrightarrow> CHR '' '' \<notin> set t"
  using isSpace_space by (auto simp: validToken_def)

lemma trim_id: "s \<noteq> [] \<Longrightarrow> \<not> isSpace (hd s) \<Longrightarrow> \<not> isSpace (last s) \<Longrightarrow> trim s = s"
proof -
  assume a: "s \<noteq> []" "\<not> isSpace (hd s)" "\<not> isSpace (last s)"
  then have 1: "dropWhile isSpace s = s" by (cases s) auto
  from a have "rev s \<noteq> []" "\<not> isSpace (hd (rev s))" by (simp_all add: hd_rev)
  then have 2: "dropWhile isSpace (rev s) = rev s" by (cases "rev s") auto
  from 1 2 show ?thesis by (simp add: trim_def)
qed

lemma trim_leading_space: "isSpace c \<Longrightarrow> trim (c # s) = trim s"
  by (simp add: trim_def)

lemma hd_join: "ts \<noteq> [] \<Longrightarrow> hd ts \<noteq> [] \<Longrightarrow> hd (join sep ts) = hd (hd ts)"
  by (induction sep ts rule: join.induct) auto

lemma join_not_Nil: "ts \<noteq> [] \<Longrightarrow> hd ts \<noteq> [] \<Longrightarrow> join sep ts \<noteq> []"
  by (induction sep ts rule: join.induct) auto

lemma join_not_Nil_last: "ts \<noteq> [] \<Longrightarrow> last ts \<noteq> [] \<Longrightarrow> join sep ts \<noteq> []"
  by (induction sep ts rule: join.induct) auto

lemma last_join: "ts \<noteq> [] \<Longrightarrow> last ts \<noteq> [] \<Longrightarrow> last (join sep ts) = last (last ts)"
proof (induction sep ts rule: join.induct)
  case (1 sep)
  then show ?case by simp
next
  case (2 sep x)
  then show ?case by simp
next
  case (3 sep x y ys)
  then have "last (join sep (y # ys)) = last (last (y # ys))" by simp
  moreover from 3 have "join sep (y # ys) \<noteq> []"
    by (intro join_not_Nil_last) simp_all
  ultimately show ?case by simp
qed

lemma trim_join_tokens:
  assumes "ts \<noteq> []" "\<forall>t \<in> set ts. validToken t"
  shows "trim (join '' '' ts) = join '' '' ts"
proof -
  from assms have h: "hd ts \<noteq> []" "\<not> isSpace (hd (hd ts))"
    by (cases ts; cases "hd ts"; auto simp: validToken_def)+
  from assms have "validToken (last ts)" by simp
  then have l: "last ts \<noteq> []" "\<not> isSpace (last (last ts))"
    by (auto simp: validToken_def)
  from assms h l show ?thesis
    by (intro trim_id) (simp_all add: join_not_Nil hd_join last_join)
qed

lemma replaceFirst_prefix: "p \<noteq> [] \<Longrightarrow> replaceFirst p [] (p @ r) = r"
  by (cases p) (simp_all add: startsWith_def)

lemma parseDocParam_tokens:
  assumes "validToken lbl" "validToken ty" "\<forall>t \<in> set cs. validToken t"
  shows "parseDocParam X (''@param '' @ join '' '' (lbl # ty # cs))
           = \<lparr>Label = lbl, Type = type2Str X (str2Type X (Some ty)), Comment = join '' '' cs, Default = ''''\<rparr>"
proof -
  let ?ts = "lbl # ty # cs"
  have r: "replaceFirst ''@param'' [] (''@param '' @ join '' '' ?ts) = CHR '' '' # join '' '' ?ts"
    using replaceFirst_prefix [of "''@param''" "CHR '' '' # join '' '' ?ts"] by simp
  have t: "trim (CHR '' '' # join '' '' ?ts) = join '' '' ?ts"
    using assms trim_join_tokens [of ?ts] by (simp add: trim_leading_space isSpace_space)
  have s: "split CHR '' '' (join '' '' ?ts) = ?ts"
    using assms split_join [of ?ts "CHR '' ''"] by (auto simp: validToken_no_space)
  show ?thesis
    unfolding parseDocParam_def r t s by (simp add: shift_def)
qed

lemma parseDocReturn_tokens:
  assumes "validToken ty" "\<forall>t \<in> set cs. validToken t"
  shows "parseDocReturn X (Some (''@returns '' @ join '' '' (ty # cs)))
           = Some \<lparr>docReturnType = type2Str X (str2Type X (Some ty)), docReturn = join '' '' cs\<rparr>"
proof -
  let ?ts = "ty # cs"
  have r: "replaceFirst ''@returns'' [] (''@returns '' @ join '' '' ?ts) = CHR '' '' # join '' '' ?ts"
    using replaceFirst_prefix [of "''@returns''" "CHR '' '' # join '' '' ?ts"] by simp
  have t: "trim (CHR '' '' # join '' '' ?ts) = join '' '' ?ts"
    using assms trim_join_tokens [of ?ts] by (simp add: trim_leading_space isSpace_space)
  have s: "split CHR '' '' (join '' '' ?ts) = ?ts"
    using assms split_join [of ?ts "CHR '' ''"] by (auto simp: validToken_no_space)
  have n: "''@returns '' @ join '' '' ?ts \<noteq> []" by simp
  show ?thesis
    unfolding parseDocReturn_def using n by (simp only: option.case if_False r t s Let_def shift_def list.case prod.case)
qed

lemma scanBack_block:
  assumes "''###'' \<notin> set body" "j \<le> length body"
  shows "scanBack (pre @ ''###'' # body @ [''###'']) (Suc (length pre + j)) = int (length pre)"
  using assms(2)
proof (induction j)
  case 0
  then show ?case by (simp add: nth_append)
next
  case (Suc j)
  then have "j < length body" by simp
  with assms(1) have "body ! j \<noteq> ''###''" using nth_mem by metis
  moreover from \<open>j < length body\<close>
  have "(pre @ ''###'' # body @ [''###'']) ! (Suc (length pre + j)) = body ! j"
    by (simp add: nth_append)
  ultimately show ?case using Suc by simp
qed

lemma findDocInfo_block:
  assumes "''###'' \<notin> set body"
  shows "findDocInfo X name (Some (pre @ ''###'' # body @ [''###'']))
    = (let doc = map (\<lambda>l. trim (filter (\<lambda>c. c \<noteq> CHR ''#'') l)) body;
           returns = parseDocReturn X (find (startsWith ''@returns'') doc)
       in Some \<lparr>infoName = name,
                infoReturnType = (case returns of Some r \<Rightarrow> docReturnType r | None \<Rightarrow> ''None''),
                infoReturn = (case returns of Some r \<Rightarrow> docReturn r | None \<Rightarrow> ''''),
                infoDeprecated = '''',
                infoComment = join [CHR '' '', CHR '' '', CHR 0x0A] (filter (\<lambda>l. \<not> startsWith ''@'' l) doc),
                infoParameters = map (parseDocParam X) (filter (startsWith ''@param'') doc)\<rparr>)"
proof -
  let ?ls = "pre @ ''###'' # body @ [''###'']"
  have l: "length ?ls - 1 = Suc (length pre + length body)" by simp
  have s: "scanBack ?ls (length ?ls - 1) = int (length pre)"
    unfolding l using scanBack_block [OF assms, of "length body" pre] by simp
  have sl: "slice ?ls (nat (int (length pre) + 1)) (nat (int (length ?ls) - 1)) = body"
    by (simp add: slice_def nat_add_distrib)
  have la: "last ?ls = ''###''" by simp
  show ?thesis
    unfolding findDocInfo_def
    by (simp only: option.case la s sl Let_def) simp
qed

lemma strip_docLine:
  "CHR ''#'' \<notin> set d \<Longrightarrow> trim d = d \<Longrightarrow> trim (filter (\<lambda>c. c \<noteq> CHR ''#'') (''# '' @ d)) = d"
proof -
  assume a: "CHR ''#'' \<notin> set d" "trim d = d"
  then have "filter (\<lambda>c. c \<noteq> CHR ''#'') d = d" by (auto intro: filter_True)
  with a show ?thesis by (simp add: trim_leading_space isSpace_space)
qed

lemma find_of_filter: "filter P xs = x # r \<Longrightarrow> find P xs = Some x"
  by (induction xs) (auto split: if_splits)

lemma join_tokens_not_Nil: "ts \<noteq> [] \<Longrightarrow> \<forall>t \<in> set ts. validToken t \<Longrightarrow> join '' '' ts \<noteq> []"
  by (intro join_not_Nil) (auto simp: validToken_def hd_in_set)

lemma serializeParam_tokens:
  assumes "\<forall>t \<in> set cs. validToken t"
  shows "serializeParam \<lparr>Label = lbl, Type = ty, Comment = join '' '' cs, Default = ''''\<rparr>
           = ''@param '' @ join '' '' (lbl # ty # cs)"
proof (cases cs)
  case Nil
  then show ?thesis by (simp add: serializeParam_def)
next
  case (Cons c cs')
  with assms have "join '' '' cs \<noteq> []" by (intro join_tokens_not_Nil) auto
  with Cons show ?thesis by (simp add: serializeParam_def)
qed

lemma serializeReturn_tokens:
  assumes "\<forall>t \<in> set cs. validToken t"
  shows "serializeReturn \<lparr>docReturnType = ty, docReturn = join '' '' cs\<rparr>
           = ''@returns '' @ join '' '' (ty # cs)"
proof (cases cs)
  case Nil
  then show ?thesis by (simp add: serializeReturn_def)
next
  case (Cons c cs')
  with assms have "join '' '' cs \<noteq> []" by (intro join_tokens_not_Nil) auto
  with Cons show ?thesis by (simp add: serializeReturn_def)
qed

text \<open>
  Claim C3, as amended. For every doc-comment block with exactly one \<^verbatim>\<open>@param\<close> line and
  exactly one \<^verbatim>\<open>@returns\<close> line, whose lines are whitespace-normalized and free of \<^verbatim>\<open>#\<close>,
  whose tokens are separated by single spaces, and whose two type tokens are names that
  the type normalization gives back unchanged, parsing the block and serializing the
  label, type and comment fields again gives the two lines back verbatim. The block may
  have summary lines, and any lines may stand in the window before it.
\<close>

theorem doc_block_roundtrip:
  assumes tok: "validToken lbl" "validToken ty" "\<forall>t \<in> set cs. validToken t"
      "validToken rty" "\<forall>t \<in> set rcs. validToken t"
    and fp: "type2Str X (str2Type X (Some ty)) = ty" "type2Str X (str2Type X (Some rty)) = rty"
    and norm: "\<forall>d \<in> set docLines. CHR ''#'' \<notin> set d \<and> trim d = d"
    and one_param: "filter (startsWith ''@param'') docLines = [''@param '' @ join '' '' (lbl # ty # cs)]"
    and one_returns: "filter (startsWith ''@returns'') docLines = [''@returns '' @ join '' '' (rty # rcs)]"
  shows "\<exists>info. findDocInfo X name (Some (pre @ commentBlock docLines)) = Some info
           \<and> map serializeParam (infoParameters info) = [''@param '' @ join '' '' (lbl # ty # cs)]
           \<and> serializeReturn \<lparr>docReturnType = infoReturnType info, docReturn = infoReturn info\<rparr>
               = ''@returns '' @ join '' '' (rty # rcs)"
proof -
  let ?body = "map (\<lambda>d. ''# '' @ d) docLines"
  let ?strip = "\<lambda>l. trim (filter (\<lambda>c. c \<noteq> CHR ''#'') l)"
  have nb: "''###'' \<notin> set ?body" by auto
  have st: "?strip (''# '' @ d) = d" if "d \<in> set docLines" for d
    using norm that strip_docLine [of d] by blast
  have doc: "map ?strip ?body = docLines"
    unfolding map_map comp_def by (rule map_idI) (rule st)
  have ret: "find (startsWith ''@returns'') docLines = Some (''@returns '' @ join '' '' (rty # rcs))"
    using one_returns by (rule find_of_filter)
  have pr: "parseDocReturn X (Some (''@returns '' @ join '' '' (rty # rcs)))
              = Some \<lparr>docReturnType = rty, docReturn = join '' '' rcs\<rparr>"
    using parseDocReturn_tokens [OF tok(4) tok(5), of X] fp(2) by simp
  have pp: "parseDocParam X (''@param '' @ join '' '' (lbl # ty # cs))
              = \<lparr>Label = lbl, Type = ty, Comment = join '' '' cs, Default = ''''\<rparr>"
    using parseDocParam_tokens [OF tok(1) tok(2) tok(3), of X] fp(1) by simp
  let ?info = "\<lparr>infoName = name, infoReturnType = rty, infoReturn = join '' '' rcs, infoDeprecated = '''',
                 infoComment = join [CHR '' '', CHR '' '', CHR 0x0A] (filter (\<lambda>l. \<not> startsWith ''@'' l) docLines),
                 infoParameters = [\<lparr>Label = lbl, Type = ty, Comment = join '' '' cs, Default = ''''\<rparr>]\<rparr>"
  have a: "findDocInfo X name (Some (pre @ commentBlock docLines)) = Some ?info"
    unfolding commentBlock_def findDocInfo_block [OF nb] doc Let_def ret pr one_param list.map pp
    by simp
  have b: "map serializeParam (infoParameters ?info) = [''@param '' @ join '' '' (lbl # ty # cs)]"
    using serializeParam_tokens [OF tok(3)] by simp
  have c: "serializeReturn \<lparr>docReturnType = infoReturnType ?info, docReturn = infoReturn ?info\<rparr>
               = ''@returns '' @ join '' '' (rty # rcs)"
    using serializeReturn_tokens [OF tok(5)] by simp
  show ?thesis by (rule exI [of _ ?info]) (intro conjI a b c)
qed

theorem doc_block_roundtrip_witness:
  "\<exists>info. findDocInfo specModule ''neg'' (Some (''x = 1'' # commentBlock negDoc)) = Some info
      \<and> map serializeParam (infoParameters info) = [''@param a number the input'']
      \<and> serializeReturn \<lparr>docReturnType = infoReturnType info, docReturn = infoReturn info\<rparr>
          = ''@returns number the negation''"
proof -
  have 1: "validToken ''a''" by code_simp
  have 2: "validToken ''number''" by code_simp
  have 3: "\<forall>t \<in> set [''the'', ''input'']. validToken t" by code_simp
  have 4: "\<forall>t \<in> set [''the'', ''negation'']. validToken t" by code_simp
  have 5: "type2Str specModule (str2Type specModule (Some ''number'')) = ''number''" by code_simp
  have 6: "\<forall>d \<in> set negDoc. CHR ''#'' \<notin> set d \<and> trim d = d" by code_simp
  have 7: "filter (startsWith ''@param'') negDoc = [''@param '' @ join '' '' [''a'', ''number'', ''the'', ''input'']]"
    by code_simp
  have 8: "filter (startsWith ''@returns'') negDoc = [''@returns '' @ join '' '' [''number'', ''the'', ''negation'']]"
    by code_simp
  from doc_block_roundtrip [OF 1 2 3 2 4 5 5 6 7 8, of "''neg''" "[''x = 1'']"] show ?thesis
    by simp
qed

text \<open>
  Claim C3 as it is written fails: the type token \<^verbatim>\<open>widget\<close> is not a name of the type
  table, the parsed type is the sentinel \<^verbatim>\<open>None\<close>, and the serialized line differs from
  the original \<^verbatim>\<open>@param w widget the one to set\<close>.
\<close>

theorem doc_block_roundtrip_counterexample:
  "findDocInfo specModule ''set'' (Some widgetBlock)
     = Some \<lparr>infoName = ''set'', infoReturnType = ''bool'', infoReturn = ''done'', infoDeprecated = '''',
             infoComment = ''sets the widget'',
             infoParameters = [\<lparr>Label = ''w'', Type = ''None'', Comment = ''the one to set'', Default = ''''\<rparr>]\<rparr>
   \<and> serializeParam \<lparr>Label = ''w'', Type = ''None'', Comment = ''the one to set'', Default = ''''\<rparr>
       = ''@param w None the one to set''
   \<and> serializeParam \<lparr>Label = ''w'', Type = ''None'', Comment = ''the one to set'', Default = ''''\<rparr>
       \<noteq> ''@param w widget the one to set''"
  by code_simp

section \<open>Files that cannot be read\<close>

lemma foldl_append_concat: "foldl (\<lambda>acc x. acc @ g x) a xs = a @ concat (map g xs)"
  by (induction xs arbitrary: a) simp_all

lemma concat_map_filter_nonempty: "\<forall>x \<in> set xs. \<not> P x \<longrightarrow> g x = [] \<Longrightarrow> concat (map g (filter P xs)) = concat (map g xs)"
  by (induction xs) auto

lemma firstResult_filter: "\<forall>x \<in> set xs. \<not> P x \<longrightarrow> f x = None \<Longrightarrow> firstResult f (filter P xs) = firstResult f xs"
  by (induction xs) (auto split: option.splits)

lemma unreadable_location: "\<not> readable fs file \<Longrightarrow> getLocationFromFile fs file keyword = []"
  by (simp add: readable_def getLocationFromFile_def ReadLinesSync_def)

lemma unreadable_hover: "\<not> readable fs file \<Longrightarrow> getHoverFromFile X fs file keyword = None"
  by (simp add: readable_def getHoverFromFile_def ReadLinesSync_def)

text \<open>
  Claim C6. With the line reader modelled from the spec, a file of the workspace that
  cannot be read does not abort a workspace scan: it contributes the empty result, and
  the scan gives what the files that can be read give, in the order of the folder: the
  location scan all their locations, the hover scan the first hover among them.
\<close>

theorem unreadable_file_skipped:
  assumes "lookupFiles fs workspace explored = Inr files"
  shows "getLocationFromWorkspace fs workspace keyword explored
           = Inr (concat (map (\<lambda>file. getLocationFromFile fs file keyword) (filter (readable fs) files)))
         \<and> getHoverFromWorkspace X fs workspace keyword explored
           = Inr (firstResult (\<lambda>file. getHoverFromFile X fs file keyword) (filter (readable fs) files))
         \<and> (\<forall>file. \<not> readable fs file \<longrightarrow>
               getLocationFromFile fs file keyword = [] \<and> getHoverFromFile X fs file keyword = None)"
proof -
  have 1: "concat (map (\<lambda>file. getLocationFromFile fs file keyword) (filter (readable fs) files))
         = concat (map (\<lambda>file. getLocationFromFile fs file keyword) files)"
    by (rule concat_map_filter_nonempty) (simp add: unreadable_location)
  have 2: "firstResult (\<lambda>file. getHoverFromFile X fs file keyword) (filter (readable fs) files)
         = firstResult (\<lambda>file. getHoverFromFile X fs file keyword) files"
    by (rule firstResult_filter) (simp add: unreadable_hover)
  show ?thesis
    using assms
    by (simp add: getLocationFromWorkspace_def getHoverFromWorkspace_def foldl_append_concat 1 2
        unreadable_location unreadable_hover)
qed

theorem unreadable_file_skipped_witness:
  "\<not> readable threeFiles (wsFile ''b.script'')
   \<and> getLocationFromWorkspace threeFiles \<lparr>fsPath = ''ws''\<rparr> ''move'' ''ws/main.script''
       = Inr [\<lparr>uri = wsFile ''a.script'', positionLine = 0, positionCharacter = 4\<rparr>,
              \<lparr>uri = wsFile ''c.script'', positionLine = 2, positionCharacter = 4\<rparr>]
   \<and> getHoverFromWorkspace specModule threeFiles \<lparr>fsPath = ''ws''\<rparr> ''grip'' ''ws/main.script''
       = Inr (Some [MarkdownString ''*user function*'', MarkdownString ''grip()''])"
proof -
  have l: "lookupFiles threeFiles \<lparr>fsPath = ''ws''\<rparr> ''ws/main.script''
             = Inr [wsFile ''a.script'', wsFile ''b.script'', wsFile ''c.script'']"
    by code_simp
  have b: "\<not> readable threeFiles (wsFile ''b.script'')"
    by code_simp
  have f: "filter (readable threeFiles) [wsFile ''a.script'', wsFile ''b.script'', wsFile ''c.script'']
             = [wsFile ''a.script'', wsFile ''c.script'']"
    by code_simp
  have c: "concat (map (\<lambda>file. getLocationFromFile threeFiles file ''move'') [wsFile ''a.script'', wsFile ''c.script''])
             = [\<lparr>uri = wsFile ''a.script'', positionLine = 0, positionCharacter = 4\<rparr>,
                \<lparr>uri = wsFile ''c.script'', positionLine = 2, positionCharacter = 4\<rparr>]"
    by code_simp
  have h: "firstResult (\<lambda>file. getHoverFromFile specModule threeFiles file ''grip'') [wsFile ''a.script'', wsFile ''c.script'']
             = Some [MarkdownString ''*user function*'', MarkdownString ''grip()'']"
    by code_simp
  note t = unreadable_file_skipped [OF l, unfolded f]
  have 1: "getLocationFromWorkspace threeFiles \<lparr>fsPath = ''ws''\<rparr> ''move'' ''ws/main.script''
       = Inr [\<lparr>uri = wsFile ''a.script'', positionLine = 0, positionCharacter = 4\<rparr>,
              \<lparr>uri = wsFile ''c.script'', positionLine = 2, positionCharacter = 4\<rparr>]"
    using t [of "''move''" specModule, THEN conjunct1] by (simp only: c)
  have 2: "getHoverFromWorkspace specModule threeFiles \<lparr>fsPath = ''ws''\<rparr> ''grip'' ''ws/main.script''
       = Inr (Some [MarkdownString ''*user function*'', MarkdownString ''grip()''])"
    using t [of "''grip''" specModule, THEN conjunct2, THEN conjunct1] by (simp only: h)
  from b 1 2 show ?thesis by blast
qed

section \<open>The order of resolution on a fresh trigger\<close>

lemma folderLoop_first:
  "\<forall>g \<in> set pre. scan g = Inr None \<Longrightarrow> scan f = Inr (Some s) \<Longrightarrow>
     folderLoop scan (pre @ f # rest) = Inr (Some s)"
  by (induction pre) simp_all

lemma folderLoop_none: "\<forall>g \<in> set folders. scan g = Inr None \<Longrightarrow> folderLoop scan folders = Inr None"
  by (induction folders) simp_all

lemma find_resetFirst:
  "find (\<lambda>s. Name s = word) sigs = Some found \<Longrightarrow>
     find (\<lambda>s. Name s = word) (resetFirst word sigs)
       = Some (found\<lparr>Item := (Item found)\<lparr>activeParameter := 0, activeSignature := 0\<rparr>\<rparr>)"
  by (induction sigs) (auto split: if_splits)

text \<open>
  Claim C7. On a fresh trigger with the cursor inside the parentheses, the word in front of
  the opening parenthesis is resolved in this order. If the catalog has an entry with
  exactly that name, the first such entry is the result, with its active-parameter and
  active-signature indices set to 0, in the result and in the catalog; neither the
  document nor the workspace is consulted. Otherwise, if the search of the document gives
  a signature, that is the result, and no folder is searched. Only if the document gives
  nothing are the folders searched, in their order: the result is that of the first
  folder that gives a signature, whatever the folders after it hold; without folders, or
  when no folder gives one, there is no result.
\<close>

theorem fresh_trigger_resolution_order:
  assumes "freshTrigger document position ctx word"
  shows "(find (\<lambda>sig. Name sig = word) scriptSignatures = Some found \<longrightarrow>
            provideSignatureHelp X fs getSignatureFromDocument workspaceFolders scriptSignatures document position ctx
              = (Some ((Item found)\<lparr>activeParameter := 0, activeSignature := 0\<rparr>), resetFirst word scriptSignatures)
            \<and> find (\<lambda>sig. Name sig = word) (resetFirst word scriptSignatures)
              = Some (found\<lparr>Item := (Item found)\<lparr>activeParameter := 0, activeSignature := 0\<rparr>\<rparr>))
       \<and> (find (\<lambda>sig. Name sig = word) scriptSignatures = None \<longrightarrow>
            (getSignatureFromDocument document word = Inr (Some sigHelp) \<longrightarrow>
               provideSignatureHelp X fs getSignatureFromDocument workspaceFolders scriptSignatures document position ctx
                 = (Some sigHelp, scriptSignatures))
            \<and> (getSignatureFromDocument document word = Inr None \<longrightarrow>
                 (workspaceFolders = None \<longrightarrow>
                    provideSignatureHelp X fs getSignatureFromDocument workspaceFolders scriptSignatures document position ctx
                      = (None, scriptSignatures))
                 \<and> (workspaceFolders = Some (pre @ folder # rest)
                      \<and> (\<forall>g \<in> set pre. getSignatureFromWorkspace X fs g word (fileName document) = Inr None)
                      \<and> getSignatureFromWorkspace X fs folder word (fileName document) = Inr (Some sigHelp) \<longrightarrow>
                    provideSignatureHelp X fs getSignatureFromDocument workspaceFolders scriptSignatures document position ctx
                      = (Some sigHelp, scriptSignatures))
                 \<and> (workspaceFolders = Some folders
                      \<and> (\<forall>g \<in> set folders. getSignatureFromWorkspace X fs g word (fileName document) = Inr None) \<longrightarrow>
                    provideSignatureHelp X fs getSignatureFromDocument workspaceFolders scriptSignatures document position ctx
                      = (None, scriptSignatures))))"
proof -
  let ?scan = "\<lambda>g. getSignatureFromWorkspace X fs g word (fileName document)"
  from assms have p:
    "provideSignatureHelp X fs getSignatureFromDocument workspaceFolders scriptSignatures document position ctx
      = (case find (\<lambda>sig. Name sig = word) scriptSignatures of
           Some found \<Rightarrow>
             (Some ((Item found)\<lparr>activeParameter := 0, activeSignature := 0\<rparr>), resetFirst word scriptSignatures)
         | None \<Rightarrow>
             (case getSignatureFromDocument document word of
                Inl e \<Rightarrow> (None, scriptSignatures)
              | Inr sigHelp \<Rightarrow>
                  if sigHelp = None \<and> workspaceFolders \<noteq> None
                  then (case folderLoop ?scan (case workspaceFolders of Some folders \<Rightarrow> folders | None \<Rightarrow> []) of
                          Inl e \<Rightarrow> (None, scriptSignatures)
                        | Inr r \<Rightarrow> (r, scriptSignatures))
                  else (sigHelp, scriptSignatures)))"
    by (auto simp: freshTrigger_def provideSignatureHelp_def Let_def)
  show ?thesis
    unfolding p
    by (auto simp: find_resetFirst folderLoop_first folderLoop_none)
qed

theorem fresh_trigger_resolution_order_witness:
  "provideSignatureHelp specModule folderFiles (\<lambda>d w. Inl EditorError) (Some threeFolders) usedCatalog
      (callOf ''movej'' ''movej()'') \<lparr>lineNumber = 0, character = 6\<rparr> fresh
     = (Some movejHelp, [\<lparr>Name = ''movej'', Item = movejHelp\<rparr>])
   \<and> provideSignatureHelp specModule folderFiles (\<lambda>d w. Inr (Some addHelp)) (Some threeFolders) usedCatalog
      (callOf ''add'' ''add()'') \<lparr>lineNumber = 0, character = 4\<rparr> fresh
     = (Some addHelp, usedCatalog)
   \<and> provideSignatureHelp specModule folderFiles (\<lambda>d w. Inr None) (Some threeFolders) usedCatalog
      (callOf ''add'' ''add()'') \<lparr>lineNumber = 0, character = 4\<rparr> fresh
     = (Some addHelp, usedCatalog)
   \<and> provideSignatureHelp specModule folderFiles (\<lambda>d w. Inr None) None usedCatalog
      (callOf ''add'' ''add()'') \<lparr>lineNumber = 0, character = 4\<rparr> fresh
     = (None, usedCatalog)"
proof -
  have tm: "freshTrigger (callOf ''movej'' ''movej()'') \<lparr>lineNumber = 0, character = 6\<rparr> fresh ''movej''"
    by code_simp
  have ta: "freshTrigger (callOf ''add'' ''add()'') \<lparr>lineNumber = 0, character = 4\<rparr> fresh ''add''"
    by code_simp
  have fm: "find (\<lambda>sig. Name sig = ''movej'') usedCatalog = Some \<lparr>Name = ''movej'', Item = movejHelp\<lparr>activeParameter := 1\<rparr>\<rparr>"
    by code_simp
  have fa: "find (\<lambda>sig. Name sig = ''add'') usedCatalog = None"
    by code_simp
  have rm: "resetFirst ''movej'' usedCatalog = [\<lparr>Name = ''movej'', Item = movejHelp\<rparr>]"
    by code_simp
  have im: "(Item \<lparr>Name = ''movej'', Item = movejHelp\<lparr>activeParameter := 1\<rparr>\<rparr>)\<lparr>activeParameter := 0, activeSignature := 0\<rparr> = movejHelp"
    by code_simp
  have fn: "fileName (callOf ''add'' ''add()'') = ''main.script''"
    by code_simp
  have e: "\<forall>g \<in> set [\<lparr>fsPath = ''empty''\<rparr>]. getSignatureFromWorkspace specModule folderFiles g ''add'' ''main.script'' = Inr None"
    by code_simp
  have l: "getSignatureFromWorkspace specModule folderFiles \<lparr>fsPath = ''lib''\<rparr> ''add'' ''main.script'' = Inr (Some addHelp)"
    by code_simp
  have w: "Some threeFolders = Some ([\<lparr>fsPath = ''empty''\<rparr>] @ \<lparr>fsPath = ''lib''\<rparr> # [\<lparr>fsPath = ''gone''\<rparr>])"
    by (simp add: threeFolders_def)
  have 1: "provideSignatureHelp specModule folderFiles (\<lambda>d w. Inl EditorError) (Some threeFolders) usedCatalog
      (callOf ''movej'' ''movej()'') \<lparr>lineNumber = 0, character = 6\<rparr> fresh
     = (Some movejHelp, [\<lparr>Name = ''movej'', Item = movejHelp\<rparr>])"
    using fresh_trigger_resolution_order [OF tm, THEN conjunct1, rule_format, OF fm, THEN conjunct1,
        of specModule folderFiles "\<lambda>d w. Inl EditorError" "Some threeFolders"]
    by (simp only: rm im)
  have 2: "provideSignatureHelp specModule folderFiles (\<lambda>d w. Inr (Some addHelp)) (Some threeFolders) usedCatalog
      (callOf ''add'' ''add()'') \<lparr>lineNumber = 0, character = 4\<rparr> fresh
     = (Some addHelp, usedCatalog)"
    using fresh_trigger_resolution_order [OF ta, THEN conjunct2, rule_format, OF fa, THEN conjunct1, rule_format,
        of "\<lambda>d w. Inr (Some addHelp)" addHelp specModule folderFiles "Some threeFolders"]
    by simp
  have 3: "provideSignatureHelp specModule folderFiles (\<lambda>d w. Inr None) (Some threeFolders) usedCatalog
      (callOf ''add'' ''add()'') \<lparr>lineNumber = 0, character = 4\<rparr> fresh
     = (Some addHelp, usedCatalog)"
    using fresh_trigger_resolution_order [OF ta, where scriptSignatures = usedCatalog
        and getSignatureFromDocument = "\<lambda>d w. Inr None" and workspaceFolders = "Some threeFolders"
        and pre = "[\<lparr>fsPath = ''empty''\<rparr>]" and folder = "\<lparr>fsPath = ''lib''\<rparr>" and rest = "[\<lparr>fsPath = ''gone''\<rparr>]"
        and X = specModule and fs = folderFiles and sigHelp = addHelp]
      fa e l w
    by (simp only: fn)
  have 4: "provideSignatureHelp specModule folderFiles (\<lambda>d w. Inr None) None usedCatalog
      (callOf ''add'' ''add()'') \<lparr>lineNumber = 0, character = 4\<rparr> fresh
     = (None, usedCatalog)"
    using fresh_trigger_resolution_order [OF ta, where scriptSignatures = usedCatalog
        and getSignatureFromDocument = "\<lambda>d w. Inr None" and workspaceFolders = None
        and X = specModule and fs = folderFiles]
      fa
    by blast
  from 1 2 3 4 show ?thesis by blast
qed

section \<open>Locations\<close>

text \<open>
  Claim C8, on the code. In the workspace \<open>moveFiles\<close> only the second file declares
  \<^verbatim>\<open>move\<close>, on its line 1, where the identifier stands at column 6. The scan returns one
  location for that line, with the column 4: the index of the name in the matched text
  \<^verbatim>\<open>def move(p):\<close>, not in the line. In \<open>globalsFiles\<close> one file has three declarations
  that start with \<^verbatim>\<open>move\<close>. Both patterns of \<^verbatim>\<open>getLocationFromFile\<close> keep their \<^verbatim>\<open>lastIndex\<close>
  from one line to the next: the declaration on line 1 is searched from the end of the
  match on line 0 and is not found, and in the declaration on line 3 the name is searched
  from the end of the name on line 0, so that the location points at the parameter \<^verbatim>\<open>a\<close>
  at index 15.
\<close>

theorem location_column_in_match_not_in_line:
  "getLocationFromWorkspace moveFiles \<lparr>fsPath = ''ws''\<rparr> ''move'' ''ws/main.script''
     = Inr [\<lparr>uri = wsFile ''b.script'', positionLine = 1, positionCharacter = 4\<rparr>]
   \<and> take 4 (drop 6 ''  def move(p):'') = ''move''
   \<and> take 4 (drop 4 ''  def move(p):'') = ''f mo''
   \<and> getLocationFromWorkspace globalsFiles \<lparr>fsPath = ''ws''\<rparr> ''move'' ''ws/main.script''
     = Inr [\<lparr>uri = wsFile ''g.script'', positionLine = 0, positionCharacter = 7\<rparr>,
            \<lparr>uri = wsFile ''g.script'', positionLine = 3, positionCharacter = 15\<rparr>]"
  by code_simp

end
